theory Spec2Isabelle
  imports Complex_Main "HOL-Library.Sublist"
begin

section \<open>Python strings\<close>

text \<open>
  A Python \<open>str\<close> is modelled as a \<open>string\<close> (a list of \<open>char\<close>), one \<open>char\<close> per
  code point; the model therefore covers the code points below 256. On that range the
  white space of \<open>str.strip()\<close> and the case folding of \<open>re.IGNORECASE\<close> are the ones
  written out below.
\<close>

definition isspace :: "char \<Rightarrow> bool" where
  "isspace c = (c \<in> set [CHR 0x09, CHR 0x0A, CHR 0x0B, CHR 0x0C, CHR 0x0D,
                          CHR 0x1C, CHR 0x1D, CHR 0x1E, CHR 0x1F, CHR 0x20, CHR 0x85, CHR 0xA0])"

definition strip :: "string \<Rightarrow> string" where
  "strip s = rev (dropWhile isspace (rev (dropWhile isspace s)))"

text \<open>\<open>sep.join(xs)\<close>.\<close>

fun join :: "string \<Rightarrow> string list \<Rightarrow> string" where
  "join sep [] = []"
| "join sep [x] = x"
| "join sep (x # y # ys) = x @ sep @ join sep (y # ys)"

text \<open>\<open>s.replace(old, new)\<close>: every occurrence, left to right, without overlap.\<close>

function str_replace :: "string \<Rightarrow> string \<Rightarrow> string \<Rightarrow> string" where
  "str_replace old new s =
     (if old = [] then new @ concat (map (\<lambda>c. c # new) s)
      else if s = [] then []
      else if prefix old s then new @ str_replace old new (drop (length old) s)
      else hd s # str_replace old new (tl s))"
  by pat_completeness auto
termination
  by (relation "measure (\<lambda>(old, new, s). length s)") auto

declare str_replace.simps [simp del]

text \<open>\<open>re.sub('[...]', "", s)\<close> for a character class: the characters of the class are removed.\<close>

definition re_sub_class :: "char list \<Rightarrow> string \<Rightarrow> string" where
  "re_sub_class cls s = filter (\<lambda>c. c \<notin> set cls) s"

text \<open>The case folding of \<open>re.IGNORECASE\<close> on the letters of a pattern in ASCII.\<close>

definition lower :: "char \<Rightarrow> char" where
  "lower c = (case map_of (zip ''ABCDEFGHIJKLMNOPQRSTUVWXYZ'' ''abcdefghijklmnopqrstuvwxyz'') c of
                None \<Rightarrow> c | Some l \<Rightarrow> l)"

text \<open>
  \<open>re.search("^No results found for.*", page_content, re.IGNORECASE)\<close>: without
  \<open>re.MULTILINE\<close> the anchor is the start of the text, and \<open>.*\<close> also matches nothing, so
  the search succeeds exactly when the first twenty characters are the phrase, whatever
  their case.
\<close>

definition re_search_no_results :: "string \<Rightarrow> bool" where
  "re_search_no_results page_content =
     (map lower (take 20 page_content) = ''no results found for'')"

section \<open>Errors, documents and the environment\<close>

text \<open>The exceptions the two scrapers can meet; all of them derive from \<open>Exception\<close>.\<close>

datatype error =
    KeyError string
  | XPathEvalError
  | AttributeError
  | ClientError
  | ClientResponseError nat
  | TimeoutError
  | OtherException

text \<open>\<open>except aiohttp.ClientError\<close> also catches its subclass \<open>ClientResponseError\<close>.\<close>

fun is_ClientError :: "error \<Rightarrow> bool" where
  "is_ClientError ClientError = True"
| "is_ClientError (ClientResponseError _) = True"
| "is_ClientError _ = False"

text \<open>
  One result of \<open>tree.xpath(...)\<close>: an element, with its \<open>text_content()\<close> and its
  attributes, or a string (what an XPath such as \<open>//a/@href\<close> yields).
\<close>

datatype xpath_result =
    Element string "(string \<times> string) list"
  | StringResult string

text \<open>
  A parsed document is known through \<open>tree.xpath\<close> only: it maps a query to the list of
  results, or raises on a query it cannot evaluate.
\<close>

type_synonym tree = "string \<Rightarrow> error + xpath_result list"

text \<open>An HTTP response: its status and what \<open>await response.text()\<close> gives.\<close>

datatype response = Response nat "error + string"

text \<open>
  What a task does that another party can observe: a sleep of \<open>randomTime(lo, hi)\<close>
  seconds, a GET request, and entering and leaving the block \<open>async with semaphore\<close>.
  Log lines are not modelled.
\<close>

datatype event = Sleep real real | Request string | Acquire | Release

text \<open>The two asynchronous scrapers, \<open>GScraper.py\<close> and \<open>GSscraper.py\<close>.\<close>

datatype variant = GScraper | GSscraper

text \<open>
  The collaborators of a run. \<open>SELECTORS\<close> is the loaded selector mapping,
  \<open>session_get\<close> the network, \<open>fromstring\<close> is \<open>lxml.html.fromstring\<close>.
  \<open>userAgents_tools\<close> and \<open>yp_lists_tools\<close> are the functions that \<open>GScraper.py\<close>
  imports from \<open>tools.functionalities\<close>; \<open>GSscraper.py\<close> defines its own.
\<close>

record env =
  variant :: variant
  SELECTORS :: "string \<rightharpoonup> string"
  session_get :: "string \<Rightarrow> error + response"
  fromstring :: "string \<Rightarrow> error + tree"
  userAgents_tools :: "error + string"
  yp_lists_tools :: "string \<Rightarrow> error + string list"

text \<open>Sequencing of steps that may raise: the first exception ends the block.\<close>

definition then_do :: "error + 'a \<Rightarrow> ('a \<Rightarrow> error + 'b) \<Rightarrow> error + 'b" where
  "then_do m f = (case m of Inl e \<Rightarrow> Inl e | Inr x \<Rightarrow> f x)"

section \<open>Utility functions\<close>

text \<open>
  \<open>randomTime\<close> of \<open>GSscraper.py\<close> is \<open>random.uniform(min_sec, max_sec)\<close>, that is
  \<open>min_sec + (max_sec - min_sec) * random()\<close>; \<open>u\<close> is the value of \<open>random()\<close>, which
  lies in [0, 1). Reals stand for the floats.
\<close>

definition randomTime :: "real \<Rightarrow> real \<Rightarrow> real \<Rightarrow> real" where
  "randomTime min_sec max_sec u = min_sec + (max_sec - min_sec) * u"

text \<open>\<open>yp_lists\<close> of \<open>GSscraper.py\<close>: pages 1 to 9.\<close>

definition yp_lists :: "string \<Rightarrow> string list" where
  "yp_lists yp_url = map (\<lambda>num. yp_url @ ''&page='' @ [num]) ''123456789''"

text \<open>
  \<open>userAgents()\<close>: in \<open>GSscraper.py\<close> it catches every exception of its own and returns
  a string; the string does not matter below.
\<close>

definition userAgents :: "env \<Rightarrow> error + string" where
  "userAgents E = (case variant E of GScraper \<Rightarrow> userAgents_tools E | GSscraper \<Rightarrow> Inr ''Mozilla/5.0'')"

text \<open>
  \<open>response.raise_for_status()\<close>, which the source comments as
  "Raise exception for bad status codes (4xx or 5xx)".
\<close>

definition raise_for_status :: "nat \<Rightarrow> error + unit" where
  "raise_for_status status = (if 400 \<le> status then Inl (ClientResponseError status) else Inr ())"

section \<open>fetch_and_parse\<close>

text \<open>The \<open>try\<close> block of \<open>fetch_and_parse\<close>.\<close>

definition fetch_try :: "env \<Rightarrow> string \<Rightarrow> error + tree option" where
  "fetch_try E url =
     then_do (userAgents E) (\<lambda>headers.
     then_do (session_get E url) (\<lambda>resp.
       case resp of Response status text \<Rightarrow>
         then_do (raise_for_status status) (\<lambda>_.
         then_do text (\<lambda>content.
           if content = [] then Inr None
           else then_do (fromstring E content) (\<lambda>tree. Inr (Some tree))))))"

text \<open>
  The three handlers each log and return \<open>None\<close>. \<open>GSscraper.py\<close> sleeps for
  \<open>randomTime(2.0, 5.0)\<close> before the \<open>try\<close>; \<open>GScraper.py\<close> does not. The request is
  issued once \<open>userAgents()\<close> has returned.
\<close>

definition fetch_and_parse :: "env \<Rightarrow> string \<Rightarrow> event list \<times> tree option" where
  "fetch_and_parse E url =
     ((case variant E of GSscraper \<Rightarrow> [Sleep 2 5] | GScraper \<Rightarrow> [])
        @ (case userAgents E of Inl _ \<Rightarrow> [] | Inr _ \<Rightarrow> [Request url]),
      (case fetch_try E url of
         Inr r \<Rightarrow> r
       | Inl e \<Rightarrow>
           if is_ClientError e then None
           else if e = TimeoutError then None
           else None))"

section \<open>get_business_urls_from_page\<close>

text \<open>
  \<open>async with semaphore:\<close> around a body: the semaphore is acquired before the body and
  released after it, however the body ends.
\<close>

definition async_with_semaphore :: "event list \<times> 'a \<Rightarrow> event list \<times> 'a" where
  "async_with_semaphore body = (Acquire # fst body @ [Release], snd body)"

text \<open>\<open>tree.xpath(SELECTORS[key])\<close>: a missing key raises \<open>KeyError\<close> before the query runs.\<close>

definition select :: "env \<Rightarrow> tree \<Rightarrow> string \<Rightarrow> error + xpath_result list" where
  "select E tree key = (case SELECTORS E key of None \<Rightarrow> Inl (KeyError key) | Some q \<Rightarrow> tree q)"

text \<open>\<open>el.text_content()\<close>: a string result has no such method.\<close>

definition text_content :: "xpath_result \<Rightarrow> error + string" where
  "text_content el = (case el of Element t _ \<Rightarrow> Inr t | StringResult _ \<Rightarrow> Inl AttributeError)"

text \<open>The generator \<open>el.text_content() for el in elements\<close>, consumed from the left.\<close>

fun text_contents :: "xpath_result list \<Rightarrow> error + string list" where
  "text_contents [] = Inr []"
| "text_contents (el # els) =
     then_do (text_content el) (\<lambda>t. then_do (text_contents els) (\<lambda>ts. Inr (t # ts)))"

text \<open>\<open>' '.join(el.text_content() for el in elements).strip()\<close>.\<close>

definition joined_text :: "xpath_result list \<Rightarrow> error + string" where
  "joined_text elements = then_do (text_contents elements) (\<lambda>ts. Inr (strip (join '' '' ts)))"

text \<open>
  \<open>[f"https://www.yellowpages.com{link}" for link in raw_links if isinstance(link, str)]\<close>.
\<close>

fun business_links_of :: "xpath_result list \<Rightarrow> string list" where
  "business_links_of [] = []"
| "business_links_of (StringResult link # raw_links) =
     (''https://www.yellowpages.com'' @ link) # business_links_of raw_links"
| "business_links_of (Element _ _ # raw_links) = business_links_of raw_links"

text \<open>How a \<open>try\<close> block ends: at its last statement, by an exception, or by a \<open>return\<close>.\<close>

datatype 'a flow = Completed | Raised error | Returned 'a

text \<open>
  The category of a page: the joined text of the elements of the \<open>categories\<close>
  selector, \<open>None\<close> when there are none.
\<close>

definition extract_category :: "env \<Rightarrow> tree \<Rightarrow> error + string option" where
  "extract_category E tree =
     then_do (select E tree ''categories'') (\<lambda>category_elements.
       if category_elements \<noteq> []
       then then_do (joined_text category_elements) (\<lambda>t. Inr (Some t))
       else Inr None)"

text \<open>The text the \<open>page_content\<close> selector gives, joined and stripped.\<close>

definition extract_page_content :: "env \<Rightarrow> tree \<Rightarrow> error + string" where
  "extract_page_content E tree = then_do (select E tree ''page_content'') joined_text"

text \<open>
  The \<open>try\<close> block of \<open>get_business_urls_from_page\<close>. The first component is the value
  of the locals \<open>(business_links, category)\<close> when the block ends; they start as
  \<open>([], None)\<close>.
\<close>

definition listing_try ::
  "env \<Rightarrow> tree \<Rightarrow> (string list \<times> string option) \<times> (string list \<times> string option) flow" where
  "listing_try E tree =
     (case extract_category E tree of
        Inl e \<Rightarrow> (([], None), Raised e)
      | Inr category \<Rightarrow>
     (case select E tree ''business_urls'' of
        Inl e \<Rightarrow> (([], category), Raised e)
      | Inr raw_links \<Rightarrow>
     (let business_links = business_links_of raw_links in
      case extract_page_content E tree of
        Inl e \<Rightarrow> ((business_links, category), Raised e)
      | Inr page_content \<Rightarrow>
          if re_search_no_results page_content
          then ((business_links, category), Returned ([], category))
          else ((business_links, category), Completed))))"

text \<open>
  The handlers (\<open>KeyError\<close> in \<open>GSscraper.py\<close> only, \<open>XPathEvalError\<close>, \<open>Exception\<close>)
  each log and fall through to \<open>return business_links, category\<close>. The sleep of
  \<open>randomTime(0.5, 1.5)\<close> is the last statement of the \<open>try\<close> block.
\<close>

definition get_business_urls_from_page ::
  "env \<Rightarrow> string \<Rightarrow> event list \<times> (string list \<times> string option)" where
  "get_business_urls_from_page E search_page_url =
     async_with_semaphore
       (case fetch_and_parse E search_page_url of
          (tr, None) \<Rightarrow> (tr, ([], None))
        | (tr, Some tree) \<Rightarrow>
            (case listing_try E tree of
               (locals, Returned r) \<Rightarrow> (tr, r)
             | (locals, Completed) \<Rightarrow> (tr @ [Sleep (1/2) (3/2)], locals)
             | (locals, Raised e) \<Rightarrow> (tr, locals)))"

section \<open>scrape_business_details\<close>

record details =
  Business :: string
  Contact :: string
  Email :: string
  Address :: string
  Map_and_direction :: string
  Review :: string
  Review_count :: string
  Hyperlink :: string
  Images :: string
  Website :: string

definition safe_xpath_get_text :: "tree \<Rightarrow> string \<Rightarrow> string \<Rightarrow> error + string" where
  "safe_xpath_get_text tree xpath_selector dflt =
     then_do (tree xpath_selector) (\<lambda>elements.
       if elements \<noteq> [] then joined_text elements else Inr dflt)"

text \<open>\<open>elements[0].get(attrib, default).strip()\<close>: a string result has no \<open>get\<close>.\<close>

definition safe_xpath_get_attrib :: "tree \<Rightarrow> string \<Rightarrow> string \<Rightarrow> string \<Rightarrow> error + string" where
  "safe_xpath_get_attrib tree xpath_selector attrib dflt =
     then_do (tree xpath_selector) (\<lambda>elements.
       case elements of
         [] \<Rightarrow> Inr dflt
       | Element _ attrs # _ \<Rightarrow>
           Inr (strip (case map_of attrs attrib of None \<Rightarrow> dflt | Some v \<Rightarrow> v))
       | StringResult _ # _ \<Rightarrow> Inl AttributeError)"

text \<open>\<open>SELECTORS[key]\<close>.\<close>

definition selector :: "env \<Rightarrow> string \<Rightarrow> error + string" where
  "selector E key = (case SELECTORS E key of None \<Rightarrow> Inl (KeyError key) | Some q \<Rightarrow> Inr q)"

text \<open>
  The dictionary display of the \<open>try\<close> block: its values are evaluated in the order
  written, and the first exception ends the block.
\<close>

definition details_try :: "env \<Rightarrow> tree \<Rightarrow> string \<Rightarrow> error + details" where
  "details_try E tree business_url =
     then_do (selector E ''business_name'') (\<lambda>q. then_do (safe_xpath_get_text tree q []) (\<lambda>business.
     then_do (selector E ''contact'') (\<lambda>q. then_do (safe_xpath_get_text tree q []) (\<lambda>contact.
     then_do (selector E ''email'') (\<lambda>q. then_do (safe_xpath_get_text tree q []) (\<lambda>email.
     then_do (selector E ''address'') (\<lambda>q. then_do (safe_xpath_get_text tree q []) (\<lambda>address.
     then_do (selector E ''map_and_direction'') (\<lambda>q. then_do (safe_xpath_get_attrib tree q ''href'' []) (\<lambda>map_href.
     then_do (selector E ''review'') (\<lambda>q. then_do (safe_xpath_get_attrib tree q ''class'' []) (\<lambda>review.
     then_do (selector E ''review_count'') (\<lambda>q. then_do (safe_xpath_get_text tree q []) (\<lambda>review_count.
     then_do (selector E ''images'') (\<lambda>q. then_do (safe_xpath_get_attrib tree q ''src'' []) (\<lambda>images.
     then_do (selector E ''website'') (\<lambda>q. then_do (safe_xpath_get_attrib tree q ''href'' []) (\<lambda>website.
       Inr \<lparr> Business = business,
             Contact = contact,
             Email = str_replace ''mailto:'' [] email,
             Address = address,
             Map_and_direction = ''https://www.yellowpages.com'' @ map_href,
             Review = str_replace ''rating-stars '' [] review,
             Review_count = re_sub_class ''()'' review_count,
             Hyperlink = business_url,
             Images = images,
             Website = website \<rparr>))))))))))))))))))"

text \<open>
  Every handler logs and returns \<open>None\<close>; after the block,
  \<open>return details if details.get("Business") else None\<close>.
\<close>

definition scrape_business_details :: "env \<Rightarrow> string \<Rightarrow> event list \<times> details option" where
  "scrape_business_details E business_url =
     async_with_semaphore
       (case fetch_and_parse E business_url of
          (tr, None) \<Rightarrow> (tr, None)
        | (tr, Some tree) \<Rightarrow>
            (case details_try E tree business_url of
               Inl e \<Rightarrow> (tr, None)
             | Inr details \<Rightarrow>
                 (tr @ [Sleep (3/10) 1],
                  if Business details \<noteq> [] then Some details else None)))"

section \<open>run_scraper\<close>

text \<open>
  \<open>all_business_urls\<close> is a Python set. It is modelled as a list without duplicates;
  \<open>set_update\<close> is \<open>set.update\<close>. Python leaves the order of iteration over a set open:
  the model iterates in the order of insertion, and no theorem below depends on it.
\<close>

definition set_add :: "'a list \<Rightarrow> 'a \<Rightarrow> 'a list" where
  "set_add s x = (if x \<in> set s then s else s @ [x])"

definition set_update :: "'a list \<Rightarrow> 'a list \<Rightarrow> 'a list" where
  "set_update s xs = foldl set_add s xs"

text \<open>
  The loop \<open>for business_urls, category in results_urls\<close>, once for each of the two
  variables it updates.
\<close>

fun all_business_urls_loop ::
  "string list \<Rightarrow> (string list \<times> string option) list \<Rightarrow> string list" where
  "all_business_urls_loop acc [] = acc"
| "all_business_urls_loop acc ((business_urls, category) # results) =
     all_business_urls_loop
       (if business_urls \<noteq> [] then set_update acc business_urls else acc) results"

definition all_business_urls :: "(string list \<times> string option) list \<Rightarrow> string list" where
  "all_business_urls results_urls = all_business_urls_loop [] results_urls"

text \<open>
  \<open>if category:\<close> holds for a string that is not empty. \<open>GSscraper.py\<close> adds
  \<open>and category not in categories_found\<close>.
\<close>

fun categories_found_loop ::
  "variant \<Rightarrow> string list \<Rightarrow> (string list \<times> string option) list \<Rightarrow> string list" where
  "categories_found_loop v acc [] = acc"
| "categories_found_loop v acc ((business_urls, category) # results) =
     categories_found_loop v
       (case category of
          None \<Rightarrow> acc
        | Some c \<Rightarrow>
            if c \<noteq> [] \<and> (if v = GSscraper then c \<notin> set acc else True)
            then acc @ [c] else acc)
       results"

definition categories_found :: "variant \<Rightarrow> (string list \<times> string option) list \<Rightarrow> string list" where
  "categories_found v results_urls = categories_found_loop v [] results_urls"

text \<open>\<open>categories_found[0] if categories_found else "Unknown_Category"\<close>.\<close>

definition category_name :: "string list \<Rightarrow> string" where
  "category_name cats = (case cats of [] \<Rightarrow> ''Unknown_Category'' | c # _ \<Rightarrow> c)"

text \<open>The character class of \<open>re.sub(r'[\\/*?:"<>|]', "", category_name)\<close>.\<close>

definition unsafe_chars :: "char list" where
  "unsafe_chars = [CHR 0x5C, CHR ''/'', CHR ''*'', CHR ''?'', CHR '':'', CHR 0x22,
                   CHR ''<'', CHR ''>'', CHR ''|'']"

definition sanitized_category :: "string \<Rightarrow> string" where
  "sanitized_category name =
     (let s = strip (re_sub_class unsafe_chars name)
      in if s = [] then ''General_Scrape'' else s)"

text \<open>\<open>[details for details in results_details if details is not None]\<close>.\<close>

definition final_data :: "details option list \<Rightarrow> details list" where
  "final_data results_details = map the (filter (\<lambda>details. details \<noteq> None) results_details)"

text \<open>The page list: imported by \<open>GScraper.py\<close>, computed by \<open>GSscraper.py\<close>.\<close>

definition search_page_urls :: "env \<Rightarrow> string \<Rightarrow> error + string list" where
  "search_page_urls E start_url =
     (case variant E of
        GScraper \<Rightarrow> yp_lists_tools E start_url
      | GSscraper \<Rightarrow> Inr (yp_lists start_url))"

text \<open>
  The two task lists. \<open>asyncio.gather\<close> returns the results in the order of the tasks.
  In the trace of a run the events of a task are kept together and listed in the order
  of the tasks; the theorems on this trace look at one task, or count. How the tasks
  interleave under the semaphore is the subject of the event loop further down.
\<close>

definition tasks_get_urls ::
  "env \<Rightarrow> string list \<Rightarrow> (event list \<times> (string list \<times> string option)) list" where
  "tasks_get_urls E pages = map (get_business_urls_from_page E) pages"

definition tasks_scrape_details ::
  "env \<Rightarrow> string list \<Rightarrow> (event list \<times> details option) list" where
  "tasks_scrape_details E urls = map (scrape_business_details E) urls"

text \<open>
  How a run ends. \<open>Save file data\<close>: the run reaches step 4 and hands \<open>data\<close> to the
  exporter for the file \<open>file\<close> of the output directory.
\<close>

datatype run_outcome =
    PageListError
  | NoSearchPages
  | NoBusinessUrls
  | NoDetails
  | Save string "details list"

definition run_scraper :: "env \<Rightarrow> string \<Rightarrow> event list \<times> run_outcome" where
  "run_scraper E start_url =
     (case search_page_urls E start_url of
        Inl e \<Rightarrow> ([], PageListError)
      | Inr pages \<Rightarrow>
          if pages = [] then ([], NoSearchPages)
          else
            let phase1 = tasks_get_urls E pages;
                results_urls = map snd phase1;
                urls = all_business_urls results_urls;
                cats = categories_found (variant E) results_urls
            in
              if urls = [] then (concat (map fst phase1), NoBusinessUrls)
              else
                let name = sanitized_category (category_name cats);
                    phase2 = tasks_scrape_details E urls;
                    results_details = map snd phase2;
                    data = final_data results_details;
                    tr = concat (map fst phase1) @ concat (map fst phase2)
                in
                  if data = [] then (tr, NoDetails)
                  else (tr, Save (name @ ''.xlsx'') data))"

section \<open>The semaphore and the tasks of a phase\<close>

text \<open>\<open>CONCURRENT_REQUEST_LIMIT\<close>: 10 in \<open>GScraper.py\<close>, 2 in \<open>GSscraper.py\<close>.\<close>

definition CONCURRENT_REQUEST_LIMIT :: "variant \<Rightarrow> nat" where
  "CONCURRENT_REQUEST_LIMIT v = (case v of GScraper \<Rightarrow> 10 | GSscraper \<Rightarrow> 2)"

text \<open>
  \<open>run_scraper\<close> makes one semaphore, \<open>asyncio.Semaphore(CONCURRENT_REQUEST_LIMIT)\<close>,
  creates all the tasks of a phase at once and waits for them with \<open>asyncio.gather\<close>.
  The event loop then runs the tasks interleaved. A state of the loop is the counter of
  the semaphore and, for every task, the units of the semaphore it holds and the events
  it has still to do; at the start of a phase the counter is the limit, and every task
  holds nothing and has its whole trace to do, the trace that
  \<open>get_business_urls_from_page\<close> or \<open>scrape_business_details\<close> gives for its URL.
\<close>

record loop =
  sem_value :: nat
  tasks :: "(nat \<times> event list) list"

definition phase_start :: "env \<Rightarrow> event list list \<Rightarrow> loop" where
  "phase_start E traces =
     \<lparr> sem_value = CONCURRENT_REQUEST_LIMIT (variant E), tasks = map (Pair 0) traces \<rparr>"

text \<open>
  The phases of a run, as \<open>run_scraper\<close> hands them to the loop: the listing tasks of all
  the pages, and then, when the merged set is not empty, the detail tasks of its URLs. The
  second \<open>asyncio.gather\<close> comes after the first has returned, and by then every listing
  task has left the block.
\<close>

definition phases :: "env \<Rightarrow> string \<Rightarrow> loop list" where
  "phases E start_url =
     (case search_page_urls E start_url of
        Inl e \<Rightarrow> []
      | Inr pages \<Rightarrow>
          if pages = [] then []
          else
            let tasks_get = tasks_get_urls E pages;
                urls = all_business_urls (map snd tasks_get)
            in
              if urls = [] then [phase_start E (map fst tasks_get)]
              else [phase_start E (map fst tasks_get),
                    phase_start E (map fst (tasks_scrape_details E urls))])"

text \<open>
  A step of the loop is the next event of one task. The semaphore is the one of
  \<open>asyncio\<close>: \<open>acquire\<close> goes on only when the counter is positive and takes a unit,
  \<open>release\<close> gives a unit back; every other event needs nothing.
\<close>

inductive step :: "loop \<Rightarrow> loop \<Rightarrow> bool" where
  enter:
    "i < length (tasks c) \<Longrightarrow> tasks c ! i = (n, Acquire # rest) \<Longrightarrow> 0 < sem_value c \<Longrightarrow>
     step c (c\<lparr> sem_value := sem_value c - 1, tasks := (tasks c)[i := (Suc n, rest)] \<rparr>)"
| leave:
    "i < length (tasks c) \<Longrightarrow> tasks c ! i = (n, Release # rest) \<Longrightarrow>
     step c (c\<lparr> sem_value := sem_value c + 1, tasks := (tasks c)[i := (n - 1, rest)] \<rparr>)"
| other:
    "i < length (tasks c) \<Longrightarrow> tasks c ! i = (n, e # rest) \<Longrightarrow> e \<noteq> Acquire \<Longrightarrow>
     e \<noteq> Release \<Longrightarrow>
     step c (c\<lparr> tasks := (tasks c)[i := (n, rest)] \<rparr>)"

text \<open>The tasks inside the block: those that hold a unit.\<close>

definition in_flight :: "loop \<Rightarrow> (nat \<times> event list) list" where
  "in_flight c = filter (\<lambda>t. 0 < fst t) (tasks c)"

text \<open>
  The shape of what a task has still to do. Inside the block: events that are neither
  \<open>Acquire\<close> nor \<open>Release\<close>, then one \<open>Release\<close>, then nothing. A task holds nothing and
  has nothing left or a whole block left, or it holds one unit and is inside the block.
\<close>

fun inside_block :: "event list \<Rightarrow> bool" where
  "inside_block [] = False"
| "inside_block (Release # rest) = (rest = [])"
| "inside_block (Acquire # rest) = False"
| "inside_block (Sleep lo hi # rest) = inside_block rest"
| "inside_block (Request url # rest) = inside_block rest"

fun task_ok :: "nat \<times> event list \<Rightarrow> bool" where
  "task_ok (0, []) = True"
| "task_ok (0, Acquire # rest) = inside_block rest"
| "task_ok (Suc 0, tr) = inside_block tr"
| "task_ok _ = False"

definition loop_inv :: "nat \<Rightarrow> loop \<Rightarrow> bool" where
  "loop_inv limit c \<longleftrightarrow>
     sem_value c + sum_list (map fst (tasks c)) = limit \<and> list_all task_ok (tasks c)"

section \<open>A small site\<close>

text \<open>
  A site of nine search pages and two detail pages, for the examples below. A page body
  is a name in angle brackets; \<open>demo_pages\<close> gives, for each body, what each query finds
  in its parsed document. The query \<open>//[\<close> cannot be evaluated.
\<close>

definition demo_tree :: "(string \<times> xpath_result list) list \<Rightarrow> tree" where
  "demo_tree al q =
     (if q = ''//['' then Inl XPathEvalError
      else case map_of al q of None \<Rightarrow> Inr [] | Some r \<Rightarrow> Inr r)"

definition demo_SELECTORS :: "(string \<times> string) list" where
  "demo_SELECTORS =
     [(''categories'', ''//h1''), (''business_urls'', ''//a/@href''), (''page_content'', ''//main''),
      (''business_name'', ''//h2''), (''contact'', ''//p''), (''email'', ''//a[1]''),
      (''address'', ''//address''), (''map_and_direction'', ''//a[2]''), (''review'', ''//div''),
      (''review_count'', ''//span''), (''images'', ''//img''), (''website'', ''//a[3]'')]"

definition demo_pages :: "(string \<times> (string \<times> xpath_result list) list) list" where
  "demo_pages =
     [(''<listing-1>'',
         [(''//h1'', [Element '' Pizza '' []]),
          (''//a/@href'', [StringResult ''/joes-1'', Element ''more'' [], StringResult ''/anon-2'']),
          (''//main'', [Element ''2 results'' []])]),
      (''<listing-2>'',
         [(''//h1'', [Element ''Pizza: NY'' []]),
          (''//a/@href'', [StringResult ''/joes-1'']),
          (''//main'', [Element ''1 result'' []])]),
      (''<listing-3>'',
         [(''//a/@href'', [StringResult ''/spurious-9'']),
          (''//main'', [Element '' NO RESULTS found for pizza'' []])]),
      (''<joes>'',
         [(''//h2'', [Element ''Joe'' [], Element ''Pizza'' []]),
          (''//p'', [Element ''(212) 555-0100'' []]),
          (''//a[1]'', [Element ''mailto:joe@example.com'' []]),
          (''//a[2]'', [Element ''map'' [(''href'', ''/map/joes-1 '')]]),
          (''//div'', [Element [] [(''class'', ''rating-stars four'')]]),
          (''//span'', [Element ''(12)'' []])]),
      (''<anon>'',
         [(''//p'', [Element ''(212) 555-0199'' []])])]"

definition demo_fromstring :: "string \<Rightarrow> error + tree" where
  "demo_fromstring content =
     (case map_of demo_pages content of
        None \<Rightarrow> Inl OtherException
      | Some al \<Rightarrow> Inr (demo_tree al))"

definition demo_session_get :: "string \<Rightarrow> error + response" where
  "demo_session_get url =
     (case map_of
        [(''q&page=1'', Response 200 (Inr ''<listing-1>'')),
         (''q&page=2'', Response 200 (Inr ''<listing-2>'')),
         (''q&page=3'', Response 200 (Inr ''<listing-3>'')),
         (''q&page=4'', Response 404 (Inr ''<listing-1>'')),
         (''q&page=5'', Response 200 (Inr [])),
         (''q&page=6'', Response 300 (Inr ''<listing-2>'')),
         (''q&page=7'', Response 200 (Inr ''<<'')),
         (''https://www.yellowpages.com/joes-1'', Response 200 (Inr ''<joes>'')),
         (''https://www.yellowpages.com/anon-2'', Response 200 (Inr ''<anon>''))] url of
        None \<Rightarrow> (if url = ''q&page=8'' then Inl TimeoutError else Inl ClientError)
      | Some r \<Rightarrow> Inr r)"

definition demo :: "variant \<Rightarrow> (string \<times> string) list \<Rightarrow> env" where
  "demo v sel =
     \<lparr> variant = v, SELECTORS = map_of sel, session_get = demo_session_get,
       fromstring = demo_fromstring, userAgents_tools = Inr ''agent'',
       yp_lists_tools = (\<lambda>start_url. Inr (yp_lists start_url)) \<rparr>"

section \<open>Basic facts\<close>

lemma then_do_Inl [simp]: "then_do (Inl e) f = Inl e"
  by (simp add: then_do_def)

lemma then_do_Inr [simp]: "then_do (Inr x) f = f x"
  by (simp add: then_do_def)

lemma then_do_eq_Inr: "then_do m f = Inr y \<longleftrightarrow> (\<exists>x. m = Inr x \<and> f x = Inr y)"
  by (cases m) simp_all

lemma snd_async_with_semaphore [simp]: "snd (async_with_semaphore body) = snd body"
  by (simp add: async_with_semaphore_def)

lemma fst_async_with_semaphore [simp]:
  "fst (async_with_semaphore body) = Acquire # fst body @ [Release]"
  by (simp add: async_with_semaphore_def)

lemmas demo_defs = demo_def demo_session_get_def demo_fromstring_def demo_pages_def
  demo_tree_def demo_SELECTORS_def

lemmas fetch_defs = fetch_and_parse_def fetch_try_def userAgents_def raise_for_status_def

section \<open>The URLs of a listing page\<close>




section \<open>The outcomes of a fetch\<close>

lemma fetch_and_parse_snd:
  "snd (fetch_and_parse E url) = (case fetch_try E url of Inl e \<Rightarrow> None | Inr r \<Rightarrow> r)"
  by (simp add: fetch_and_parse_def split: sum.splits)

lemma fetch_and_parse_fst:
  "fst (fetch_and_parse E url) =
     (case variant E of GSscraper \<Rightarrow> [Sleep 2 5] | GScraper \<Rightarrow> [])
        @ (case userAgents E of Inl _ \<Rightarrow> [] | Inr _ \<Rightarrow> [Request url])"
  by (simp add: fetch_and_parse_def)

lemma fetch_try_response:
  "userAgents E = Inr ua \<Longrightarrow> session_get E url = Inr (Response status body) \<Longrightarrow>
   fetch_try E url =
     (if 400 \<le> status then Inl (ClientResponseError status)
      else case body of
             Inl e \<Rightarrow> Inl e
           | Inr content \<Rightarrow>
               if content = [] then Inr None
               else (case fromstring E content of Inl e \<Rightarrow> Inl e | Inr tree \<Rightarrow> Inr (Some tree)))"
  by (simp add: fetch_try_def raise_for_status_def then_do_def split: sum.splits)

lemma fetch_try_Some:
  "fetch_try E url = Inr (Some tree) \<longleftrightarrow>
     (\<exists>ua status content. userAgents E = Inr ua
        \<and> session_get E url = Inr (Response status (Inr content))
        \<and> status < 400 \<and> content \<noteq> [] \<and> fromstring E content = Inr tree)"
proof (cases "userAgents E")
  case (Inl e)
  then show ?thesis by (simp add: fetch_try_def)
next
  case (Inr ua)
  note ua = Inr
  show ?thesis
  proof (cases "session_get E url")
    case (Inl e)
    with ua show ?thesis by (simp add: fetch_try_def)
  next
    case (Inr resp)
    obtain status body where resp: "resp = Response status body" by (cases resp)
    show ?thesis
      using fetch_try_response [OF ua Inr [unfolded resp]] ua Inr resp
      by (auto split: sum.splits if_splits)
  qed
qed

lemma fetch_and_parse_Some:
  "snd (fetch_and_parse E url) = Some tree \<longleftrightarrow>
     (\<exists>ua status content. userAgents E = Inr ua
        \<and> session_get E url = Inr (Response status (Inr content))
        \<and> status < 400 \<and> content \<noteq> [] \<and> fromstring E content = Inr tree)"
  unfolding fetch_try_Some [symmetric]
  by (simp add: fetch_and_parse_snd split: sum.splits)

text \<open>
  Claim C4, as amended. A fetch gives a parsed document or \<open>None\<close>, and nothing else.
  A status of 400 or more gives \<open>None\<close> whatever the parser would make of the body (the
  body is not parsed); an empty body, a body that cannot be read, an exception of the
  request (a network error or a timeout among them), an exception of the parser and an
  exception of \<open>userAgents()\<close> each give \<open>None\<close>. A document comes back exactly when the
  status is below 400, the body is not empty and the parser accepts it. The request is
  issued at most once: nothing is retried.
\<close>

theorem fetch_outcomes:
  "(session_get E url = Inr (Response status body) \<and> 400 \<le> status
      \<longrightarrow> snd (fetch_and_parse (E\<lparr>fromstring := parse\<rparr>) url) = None)
   \<and> (session_get E url = Inr (Response status (Inr [])) \<longrightarrow> snd (fetch_and_parse E url) = None)
   \<and> (session_get E url = Inr (Response status (Inl e)) \<longrightarrow> snd (fetch_and_parse E url) = None)
   \<and> (session_get E url = Inl e \<longrightarrow> snd (fetch_and_parse E url) = None)
   \<and> (session_get E url = Inr (Response status (Inr content)) \<and> fromstring E content = Inl e
      \<longrightarrow> snd (fetch_and_parse E url) = None)
   \<and> (userAgents E = Inl e \<longrightarrow> snd (fetch_and_parse E url) = None)
   \<and> (snd (fetch_and_parse E url) = Some tree \<longleftrightarrow>
        (\<exists>ua status content. userAgents E = Inr ua
           \<and> session_get E url = Inr (Response status (Inr content))
           \<and> status < 400 \<and> content \<noteq> [] \<and> fromstring E content = Inr tree))
   \<and> count_list (fst (fetch_and_parse E url)) (Request url) \<le> 1"
proof -
  have none: "snd (fetch_and_parse E' url) = None"
    if "\<And>t. fetch_try E' url \<noteq> Inr (Some t)" for E'
    using that by (cases "fetch_try E' url") (auto simp: fetch_and_parse_snd)
  have 1: "session_get E url = Inr (Response status body) \<and> 400 \<le> status
      \<longrightarrow> snd (fetch_and_parse (E\<lparr>fromstring := parse\<rparr>) url) = None"
    by (auto intro!: none simp: fetch_try_Some)
  have 2: "session_get E url = Inr (Response status (Inr []))
      \<longrightarrow> snd (fetch_and_parse E url) = None"
    by (auto intro!: none simp: fetch_try_Some)
  have 3: "session_get E url = Inr (Response status (Inl e))
      \<longrightarrow> snd (fetch_and_parse E url) = None"
    by (auto intro!: none simp: fetch_try_Some)
  have 4: "session_get E url = Inl e \<longrightarrow> snd (fetch_and_parse E url) = None"
    by (auto intro!: none simp: fetch_try_Some)
  have 5: "session_get E url = Inr (Response status (Inr content)) \<and> fromstring E content = Inl e
      \<longrightarrow> snd (fetch_and_parse E url) = None"
    by (auto intro!: none simp: fetch_try_Some)
  have 6: "userAgents E = Inl e \<longrightarrow> snd (fetch_and_parse E url) = None"
    by (auto intro!: none simp: fetch_try_Some)
  have 7: "count_list (fst (fetch_and_parse E url)) (Request url) \<le> 1"
    by (simp add: fetch_and_parse_fst split: variant.splits sum.splits)
  from 1 2 3 4 5 6 7 fetch_and_parse_Some [of E url tree] show ?thesis by blast
qed

text \<open>
  Claim C4, as amended, on the small site: a status 404, an empty body, a body the parser
  refuses, a timeout and a network error.
\<close>

theorem fetch_outcomes_witness:
  "snd (fetch_and_parse (demo GScraper demo_SELECTORS) ''q&page=4'') = None
   \<and> snd (fetch_and_parse (demo GScraper demo_SELECTORS) ''q&page=5'') = None
   \<and> snd (fetch_and_parse (demo GScraper demo_SELECTORS) ''q&page=7'') = None
   \<and> snd (fetch_and_parse (demo GScraper demo_SELECTORS) ''q&page=8'') = None
   \<and> snd (fetch_and_parse (demo GScraper demo_SELECTORS) ''q&page=9'') = None"
proof -
  let ?E = "demo GScraper demo_SELECTORS"
  have e: "?E\<lparr>fromstring := demo_fromstring\<rparr> = ?E" by (simp add: demo_def)
  have "session_get ?E ''q&page=4'' = Inr (Response 404 (Inr ''<listing-1>''))
        \<and> (400::nat) \<le> 404"
    by (simp add: demo_def demo_session_get_def)
  with fetch_outcomes [where E = ?E and url = "''q&page=4''" and status = 404
      and body = "Inr ''<listing-1>''" and parse = demo_fromstring]
  have 4: "snd (fetch_and_parse ?E ''q&page=4'') = None" unfolding e by blast
  have "session_get ?E ''q&page=5'' = Inr (Response 200 (Inr []))"
    by (simp add: demo_def demo_session_get_def)
  with fetch_outcomes [where E = ?E and url = "''q&page=5''" and status = 200]
  have 5: "snd (fetch_and_parse ?E ''q&page=5'') = None" by blast
  have "session_get ?E ''q&page=7'' = Inr (Response 200 (Inr ''<<''))
        \<and> fromstring ?E ''<<'' = Inl OtherException"
    by (simp add: demo_def demo_session_get_def demo_fromstring_def demo_pages_def)
  with fetch_outcomes [where E = ?E and url = "''q&page=7''" and status = 200
      and content = "''<<''" and e = OtherException]
  have 7: "snd (fetch_and_parse ?E ''q&page=7'') = None" by blast
  have "session_get ?E ''q&page=8'' = Inl TimeoutError"
    by (simp add: demo_def demo_session_get_def)
  with fetch_outcomes [where E = ?E and url = "''q&page=8''" and e = TimeoutError]
  have 8: "snd (fetch_and_parse ?E ''q&page=8'') = None" by blast
  have "session_get ?E ''q&page=9'' = Inl ClientError"
    by (simp add: demo_def demo_session_get_def)
  with fetch_outcomes [where E = ?E and url = "''q&page=9''" and e = ClientError]
  have 9: "snd (fetch_and_parse ?E ''q&page=9'') = None" by blast
  from 4 5 7 8 9 show ?thesis by blast
qed

text \<open>
  Claim C4 as it is written fails on a status that is neither 2xx nor 400 or more: page 6
  of the small site answers 300 with a body, and the fetch parses the body and returns
  the document.
\<close>

theorem fetch_parses_status_300:
  "session_get (demo GScraper demo_SELECTORS) ''q&page=6''
     = Inr (Response 300 (Inr ''<listing-2>''))
   \<and> \<not> (200 \<le> (300::nat) \<and> (300::nat) < 300)
   \<and> snd (fetch_and_parse (demo GScraper demo_SELECTORS) ''q&page=6'') \<noteq> None"
  by (simp add: fetch_defs demo_def demo_session_get_def demo_fromstring_def demo_pages_def)

section \<open>The delay of a fetch\<close>

lemma randomTime_range:
  "min_sec \<le> max_sec \<Longrightarrow> 0 \<le> u \<Longrightarrow> u \<le> 1 \<Longrightarrow>
   min_sec \<le> randomTime min_sec max_sec u \<and> randomTime min_sec max_sec u \<le> max_sec"
proof -
  assume a: "min_sec \<le> max_sec" "0 \<le> u" "u \<le> 1"
  then have "0 \<le> (max_sec - min_sec) * u" by simp
  moreover from a have "(max_sec - min_sec) * u \<le> (max_sec - min_sec) * 1"
    by (intro mult_left_mono) simp_all
  ultimately show ?thesis by (simp add: randomTime_def)
qed

lemma get_business_urls_from_page_fst:
  "fst (get_business_urls_from_page E url) =
     Acquire # fst (fetch_and_parse E url)
       @ (case snd (fetch_and_parse E url) of
            None \<Rightarrow> []
          | Some tree \<Rightarrow>
              (case snd (listing_try E tree) of
                 Completed \<Rightarrow> [Sleep (1/2) (3/2)] | Raised e \<Rightarrow> [] | Returned r \<Rightarrow> []))
       @ [Release]"
  by (cases "fetch_and_parse E url")
     (auto simp: get_business_urls_from_page_def split: option.splits prod.splits flow.splits)

lemma scrape_business_details_fst:
  "fst (scrape_business_details E url) =
     Acquire # fst (fetch_and_parse E url)
       @ (case snd (fetch_and_parse E url) of
            None \<Rightarrow> []
          | Some tree \<Rightarrow>
              (case details_try E tree url of Inl e \<Rightarrow> [] | Inr d \<Rightarrow> [Sleep (3/10) 1]))
       @ [Release]"
  by (cases "fetch_and_parse E url")
     (auto simp: scrape_business_details_def split: option.splits sum.splits)

text \<open>
  Claim C7, as amended. In \<open>GSscraper.py\<close> every fetch first sleeps for
  \<open>randomTime(2.0, 5.0)\<close> seconds and then issues its request, and the delay lies between
  2 and 5 seconds for every value \<open>u\<close> in [0, 1] of the random generator. In
  \<open>GScraper.py\<close> a fetch is its request and nothing else, so that no delay precedes the
  request; a task of either phase is the fetch followed by at most one sleep, the one
  that ends the processing of the page.
\<close>

theorem fetch_delay_by_variant:
  "(variant E = GSscraper \<longrightarrow>
      fst (fetch_and_parse E url) = [Sleep 2 5, Request url]
      \<and> (0 \<le> u \<and> u \<le> 1 \<longrightarrow> 2 \<le> randomTime 2 5 u \<and> randomTime 2 5 u \<le> 5))
   \<and> (variant E = GScraper \<longrightarrow>
      fst (fetch_and_parse E url) = (case userAgents E of Inl e \<Rightarrow> [] | Inr ua \<Rightarrow> [Request url])
      \<and> (\<exists>rest. fst (get_business_urls_from_page E url)
                   = Acquire # fst (fetch_and_parse E url) @ rest @ [Release]
                 \<and> (rest = [] \<or> rest = [Sleep (1/2) (3/2)]))
      \<and> (\<exists>rest. fst (scrape_business_details E url)
                   = Acquire # fst (fetch_and_parse E url) @ rest @ [Release]
                 \<and> (rest = [] \<or> rest = [Sleep (3/10) 1])))"
proof -
  have 1: "variant E = GSscraper \<longrightarrow>
      fst (fetch_and_parse E url) = [Sleep 2 5, Request url]
      \<and> (0 \<le> u \<and> u \<le> 1 \<longrightarrow> 2 \<le> randomTime 2 5 u \<and> randomTime 2 5 u \<le> 5)"
    using randomTime_range [of 2 5 u]
    by (simp add: fetch_and_parse_fst userAgents_def)
  have 2: "variant E = GScraper \<longrightarrow>
      fst (fetch_and_parse E url) = (case userAgents E of Inl e \<Rightarrow> [] | Inr ua \<Rightarrow> [Request url])"
    by (simp add: fetch_and_parse_fst)
  have 3: "\<exists>rest. fst (get_business_urls_from_page E url)
                   = Acquire # fst (fetch_and_parse E url) @ rest @ [Release]
                 \<and> (rest = [] \<or> rest = [Sleep (1/2) (3/2)])"
    by (simp add: get_business_urls_from_page_fst split: option.splits flow.splits)
  have 4: "\<exists>rest. fst (scrape_business_details E url)
                   = Acquire # fst (fetch_and_parse E url) @ rest @ [Release]
                 \<and> (rest = [] \<or> rest = [Sleep (3/10) 1])"
    by (simp add: scrape_business_details_fst split: option.splits sum.splits)
  from 1 2 3 4 show ?thesis by blast
qed

text \<open>
  Claim C7, as amended, on the first page of the small site: in \<open>GSscraper.py\<close> the sleep
  and then the request, with the draw 1/2; in \<open>GScraper.py\<close> the request alone.
\<close>

theorem fetch_delay_by_variant_witness:
  "fst (fetch_and_parse (demo GSscraper demo_SELECTORS) ''q&page=1'')
       = [Sleep 2 5, Request ''q&page=1'']
   \<and> randomTime 2 5 (1/2) = 7/2
   \<and> fst (fetch_and_parse (demo GScraper demo_SELECTORS) ''q&page=1'') = [Request ''q&page=1'']"
proof -
  have v: "variant (demo GSscraper demo_SELECTORS) = GSscraper" by (simp add: demo_def)
  have w: "variant (demo GScraper demo_SELECTORS) = GScraper" by (simp add: demo_def)
  have a: "userAgents (demo GScraper demo_SELECTORS) = Inr ''agent''"
    by (simp add: userAgents_def demo_def)
  from fetch_delay_by_variant [of "demo GSscraper demo_SELECTORS" "''q&page=1''" "1/2"] v
  have 1: "fst (fetch_and_parse (demo GSscraper demo_SELECTORS) ''q&page=1'')
       = [Sleep 2 5, Request ''q&page=1'']"
    by blast
  from fetch_delay_by_variant [of "demo GScraper demo_SELECTORS" "''q&page=1''" "1/2"] w
  have "fst (fetch_and_parse (demo GScraper demo_SELECTORS) ''q&page=1'')
       = (case userAgents (demo GScraper demo_SELECTORS) of
            Inl e \<Rightarrow> [] | Inr ua \<Rightarrow> [Request ''q&page=1''])"
    by blast
  with a have 2: "fst (fetch_and_parse (demo GScraper demo_SELECTORS) ''q&page=1'')
       = [Request ''q&page=1'']"
    by simp
  from 1 2 show ?thesis by (simp add: randomTime_def)
qed

text \<open>
  Claim C7 as it is written fails in \<open>GScraper.py\<close>: its fetch issues the request with no
  sleep before it, and the only sleep of the task comes after the page has been processed.
\<close>

theorem GScraper_fetch_no_delay:
  "fst (fetch_and_parse (demo GScraper demo_SELECTORS) ''q&page=1'') = [Request ''q&page=1'']
   \<and> fst (get_business_urls_from_page (demo GScraper demo_SELECTORS) ''q&page=1'')
       = [Acquire, Request ''q&page=1'', Sleep (1/2) (3/2), Release]"
  by (simp add: get_business_urls_from_page_def fetch_defs
      demo_defs listing_try_def extract_category_def extract_page_content_def select_def
      joined_text_def text_content_def strip_def isspace_def re_search_no_results_def lower_def)

section \<open>The extraction of a listing page\<close>

lemmas listing_defs = get_business_urls_from_page_def listing_try_def extract_category_def
  extract_page_content_def select_def joined_text_def text_content_def strip_def isspace_def
  re_search_no_results_def lower_def

lemma get_business_urls_from_page_snd:
  "snd (get_business_urls_from_page E url) =
     (case snd (fetch_and_parse E url) of
        None \<Rightarrow> ([], None)
      | Some tree \<Rightarrow>
          (case listing_try E tree of (locals, Returned r) \<Rightarrow> r | (locals, _) \<Rightarrow> locals))"
  by (cases "fetch_and_parse E url")
     (auto simp: get_business_urls_from_page_def split: option.splits prod.splits flow.splits)

lemma select_missing_key: "SELECTORS E key = None \<Longrightarrow> select E tree key = Inl (KeyError key)"
  by (simp add: select_def)

lemma select_query: "SELECTORS E key = Some q \<Longrightarrow> select E tree key = tree q"
  by (simp add: select_def)

lemma prefix_no_results:
  assumes "prefix ''no results found for'' (map lower page_content)"
  shows "re_search_no_results page_content"
proof -
  from assms obtain rest where "map lower page_content = ''no results found for'' @ rest"
    by (auto simp: prefix_def)
  then have "take 20 (map lower page_content) = ''no results found for''"
    by simp
  then show ?thesis
    by (simp add: re_search_no_results_def take_map)
qed

lemma listing_try_no_results:
  assumes "extract_page_content E tree = Inr page_content"
      and "re_search_no_results page_content"
  shows "\<exists>locals fl. listing_try E tree = (locals, fl) \<and>
           (case fl of Returned r \<Rightarrow> fst r = [] | _ \<Rightarrow> fst locals = [])"
  using assms
  by (auto simp: listing_try_def Let_def split: sum.splits)

text \<open>
  Claim C3. When the text of the page-content selector, joined and stripped as the code
  tests it, begins with \<open>No results found for\<close> in any case, the listing extraction
  returns an empty URL list, whatever the business-URL selector matched on the page, and
  the page adds nothing to the merged set of URLs.
\<close>

theorem no_results_returns_no_urls:
  assumes "snd (fetch_and_parse E url) = Some tree"
      and "extract_page_content E tree = Inr page_content"
      and "prefix ''no results found for'' (map lower page_content)"
  shows "fst (snd (get_business_urls_from_page E url)) = []
         \<and> all_business_urls_loop acc (snd (get_business_urls_from_page E url) # results)
             = all_business_urls_loop acc results"
proof -
  from listing_try_no_results [OF assms(2) prefix_no_results [OF assms(3)]]
  obtain locals fl where l: "listing_try E tree = (locals, fl)"
    and c: "case fl of Returned r \<Rightarrow> fst r = [] | _ \<Rightarrow> fst locals = []"
    by blast
  have e: "fst (snd (get_business_urls_from_page E url)) = []"
    using assms(1) l c
    by (cases fl) (simp_all add: get_business_urls_from_page_snd)
  then show ?thesis
    by (cases "snd (get_business_urls_from_page E url)") simp
qed

text \<open>
  Claim C3 on page 3 of the small site: the text is \<open>NO RESULTS found for pizza\<close> after
  the strip, and the business-URL selector matches one link.
\<close>

theorem no_results_returns_no_urls_witness:
  "snd (fetch_and_parse (demo GScraper demo_SELECTORS) ''q&page=3'') \<noteq> None
   \<and> extract_page_content (demo GScraper demo_SELECTORS)
        (the (snd (fetch_and_parse (demo GScraper demo_SELECTORS) ''q&page=3'')))
       = Inr ''NO RESULTS found for pizza''
   \<and> select (demo GScraper demo_SELECTORS)
        (the (snd (fetch_and_parse (demo GScraper demo_SELECTORS) ''q&page=3''))) ''business_urls''
       = Inr [StringResult ''/spurious-9'']
   \<and> fst (snd (get_business_urls_from_page (demo GScraper demo_SELECTORS) ''q&page=3'')) = []"
proof -
  let ?E = "demo GScraper demo_SELECTORS"
  let ?t = "the (snd (fetch_and_parse ?E ''q&page=3''))"
  have n: "snd (fetch_and_parse ?E ''q&page=3'') \<noteq> None"
    by (simp add: fetch_defs demo_def demo_session_get_def demo_fromstring_def demo_pages_def)
  then have f: "snd (fetch_and_parse ?E ''q&page=3'') = Some ?t"
    by simp
  have p: "extract_page_content ?E ?t = Inr ''NO RESULTS found for pizza''"
    by (simp add: fetch_defs demo_defs listing_defs)
  have l: "prefix ''no results found for'' (map lower ''NO RESULTS found for pizza'')"
    by (simp add: lower_def)
  have s: "select ?E ?t ''business_urls'' = Inr [StringResult ''/spurious-9'']"
    by (simp add: fetch_defs demo_defs listing_defs)
  from no_results_returns_no_urls [OF f p l] n p s show ?thesis by blast
qed

text \<open>
  Claim C6, as amended. On a listing page that was fetched, an exception of a selector (a
  missing key, a query that cannot be evaluated) never leaves the extraction, which returns
  what it had set before the exception: no URL and no category when the category
  extraction raises; no URL and the category when the business-URL selector raises; the
  URLs and the category when the page-content extraction raises. Every page of the phase
  has its own result, the one the extraction gives for that page alone.
\<close>

theorem selector_raise_partial_result:
  assumes "snd (fetch_and_parse E url) = Some tree"
  shows "(SELECTORS E key = None \<longrightarrow> select E tree key = Inl (KeyError key))
     \<and> (SELECTORS E key = Some q \<and> tree q = Inl e \<longrightarrow> select E tree key = Inl e)
     \<and> (extract_category E tree = Inl e
          \<longrightarrow> snd (get_business_urls_from_page E url) = ([], None))
     \<and> (extract_category E tree = Inr category \<and> select E tree ''business_urls'' = Inl e
          \<longrightarrow> snd (get_business_urls_from_page E url) = ([], category))
     \<and> (extract_category E tree = Inr category \<and> select E tree ''business_urls'' = Inr raw_links
          \<and> extract_page_content E tree = Inl e
          \<longrightarrow> snd (get_business_urls_from_page E url) = (business_links_of raw_links, category))
     \<and> length (tasks_get_urls E pages) = length pages
     \<and> (i < length pages
          \<longrightarrow> tasks_get_urls E pages ! i = get_business_urls_from_page E (pages ! i))"
  using assms
  by (simp add: get_business_urls_from_page_snd listing_try_def select_def tasks_get_urls_def)

text \<open>
  Claim C6, as amended, on page 1 of the small site, with a business-URL selector and with
  a category selector that cannot be evaluated.
\<close>

theorem selector_raise_partial_result_witness:
  "snd (get_business_urls_from_page (demo GSscraper ((''business_urls'', ''//['') # demo_SELECTORS)) ''q&page=1'')
     = ([], Some ''Pizza'')
   \<and> snd (get_business_urls_from_page (demo GSscraper ((''categories'', ''//['') # demo_SELECTORS)) ''q&page=1'')
     = ([], None)"
proof -
  let ?E = "demo GSscraper ((''business_urls'', ''//['') # demo_SELECTORS)"
  let ?t = "the (snd (fetch_and_parse ?E ''q&page=1''))"
  let ?F = "demo GSscraper ((''categories'', ''//['') # demo_SELECTORS)"
  let ?u = "the (snd (fetch_and_parse ?F ''q&page=1''))"
  have f: "snd (fetch_and_parse ?E ''q&page=1'') = Some ?t"
    by (simp add: fetch_defs demo_def demo_session_get_def demo_fromstring_def demo_pages_def)
  have c: "extract_category ?E ?t = Inr (Some ''Pizza'')
           \<and> select ?E ?t ''business_urls'' = Inl XPathEvalError"
    by (simp add: fetch_defs demo_defs listing_defs)
  have g: "snd (fetch_and_parse ?F ''q&page=1'') = Some ?u"
    by (simp add: fetch_defs demo_def demo_session_get_def demo_fromstring_def demo_pages_def)
  have d: "extract_category ?F ?u = Inl XPathEvalError"
    by (simp add: fetch_defs demo_defs listing_defs)
  from selector_raise_partial_result [OF f, where category = "Some ''Pizza''" and e = XPathEvalError] c
    selector_raise_partial_result [OF g, where e = XPathEvalError] d
  show ?thesis by blast
qed

text \<open>
  Claim C6 as it is written fails when the page-content selector raises: on page 1 of the
  small site the extraction then returns the two URLs and the category of the page.
\<close>

theorem page_content_raise_keeps_urls:
  "SELECTORS (demo GSscraper ((''page_content'', ''//['') # demo_SELECTORS)) ''page_content'' = Some ''//[''
   \<and> demo_tree [] ''//['' = Inl XPathEvalError
   \<and> snd (get_business_urls_from_page (demo GSscraper ((''page_content'', ''//['') # demo_SELECTORS)) ''q&page=1'')
     = ([''https://www.yellowpages.com/joes-1'', ''https://www.yellowpages.com/anon-2''], Some ''Pizza'')"
  by (simp add: fetch_defs demo_defs listing_defs)


section \<open>The records of a run\<close>

lemmas details_defs = scrape_business_details_def details_try_def selector_def
  safe_xpath_get_text_def safe_xpath_get_attrib_def joined_text_def text_content_def
  strip_def isspace_def re_sub_class_def

lemmas run_defs = run_scraper_def search_page_urls_def yp_lists_def tasks_get_urls_def
  tasks_scrape_details_def all_business_urls_def set_update_def set_add_def
  categories_found_def category_name_def sanitized_category_def unsafe_chars_def final_data_def


lemma scrape_business_details_snd:
  "snd (scrape_business_details E url) =
     (case snd (fetch_and_parse E url) of
        None \<Rightarrow> None
      | Some tree \<Rightarrow>
          (case details_try E tree url of
             Inl e \<Rightarrow> None
           | Inr d \<Rightarrow> if Business d \<noteq> [] then Some d else None))"
  by (cases "fetch_and_parse E url")
     (auto simp: scrape_business_details_def split: option.splits sum.splits)

lemma selector_eq_Inr: "selector E key = Inr q \<longleftrightarrow> SELECTORS E key = Some q"
  by (simp add: selector_def split: option.splits)

lemma details_try_keys:
  assumes "details_try E tree url = Inr d"
  shows "SELECTORS E ''business_name'' \<noteq> None \<and> SELECTORS E ''contact'' \<noteq> None
       \<and> SELECTORS E ''email'' \<noteq> None \<and> SELECTORS E ''address'' \<noteq> None
       \<and> SELECTORS E ''map_and_direction'' \<noteq> None \<and> SELECTORS E ''review'' \<noteq> None
       \<and> SELECTORS E ''review_count'' \<noteq> None \<and> SELECTORS E ''images'' \<noteq> None
       \<and> SELECTORS E ''website'' \<noteq> None"
  using assms
  by (auto simp: details_try_def then_do_eq_Inr selector_eq_Inr)

lemma details_try_Business:
  assumes "details_try E tree url = Inr d"
  shows "\<exists>q. SELECTORS E ''business_name'' = Some q \<and> safe_xpath_get_text tree q [] = Inr (Business d)"
  using assms
  by (auto simp: details_try_def then_do_eq_Inr selector_eq_Inr)

lemma details_try_Hyperlink:
  assumes "details_try E tree url = Inr d"
  shows "Hyperlink d = url"
  using assms
  by (auto simp: details_try_def then_do_eq_Inr selector_eq_Inr)

lemma final_data_set: "set (final_data rs) = {d. Some d \<in> set rs}"
  by (induction rs) (auto simp: final_data_def)

lemma run_scraper_Save:
  assumes "snd (run_scraper E start_url) = Save output_file data"
  shows "\<exists>pages. search_page_urls E start_url = Inr pages \<and> pages \<noteq> []
           \<and> all_business_urls (map snd (tasks_get_urls E pages)) \<noteq> []
           \<and> output_file = sanitized_category (category_name
                 (categories_found (variant E) (map snd (tasks_get_urls E pages)))) @ ''.xlsx''
           \<and> data = final_data (map snd (tasks_scrape_details E
                 (all_business_urls (map snd (tasks_get_urls E pages)))))
           \<and> data \<noteq> []"
  using assms
  by (auto simp: run_scraper_def Let_def split: sum.splits if_splits)

lemma run_scraper_snd:
  assumes "search_page_urls E start_url = Inr pages"
  shows "snd (run_scraper E start_url) =
     (if pages = [] then NoSearchPages
      else if all_business_urls (map snd (tasks_get_urls E pages)) = [] then NoBusinessUrls
      else if final_data (map snd (tasks_scrape_details E
                (all_business_urls (map snd (tasks_get_urls E pages))))) = [] then NoDetails
      else Save (sanitized_category (category_name
                   (categories_found (variant E) (map snd (tasks_get_urls E pages)))) @ ''.xlsx'')
             (final_data (map snd (tasks_scrape_details E
                (all_business_urls (map snd (tasks_get_urls E pages)))))))"
  using assms by (simp add: run_scraper_def Let_def)

lemma run_scraper_fst:
  assumes "search_page_urls E start_url = Inr pages"
  shows "fst (run_scraper E start_url) =
     concat (map fst (tasks_get_urls E pages))
       @ concat (map fst (tasks_scrape_details E
           (all_business_urls (map snd (tasks_get_urls E pages)))))"
  using assms
  by (simp add: run_scraper_def Let_def tasks_get_urls_def tasks_scrape_details_def
      all_business_urls_def)

lemma final_data_scrape:
  "d \<in> set (final_data (map snd (tasks_scrape_details E urls))) \<longleftrightarrow>
     (\<exists>url \<in> set urls. snd (scrape_business_details E url) = Some d)"
  by (auto simp: final_data_set tasks_scrape_details_def image_iff) metis

text \<open>
  Claim C1. The detail extraction returns a record exactly when the page was fetched, the
  record was built, and its \<open>Business\<close> field is not empty; a page on which the
  business-name selector matches nothing gives no record. The collection a run hands to
  the exporter is the list of the records the detail extractions returned for the URLs of
  the merged set, so a record is handed to the exporter exactly when it was built from
  the page of one of these URLs with a \<open>Business\<close> field that is not empty, and every
  record handed over has such a field.
\<close>

theorem record_exported_iff_business_nonempty:
  "(snd (scrape_business_details E url) = Some d \<longleftrightarrow>
      (\<exists>tree. snd (fetch_and_parse E url) = Some tree \<and> details_try E tree url = Inr d
         \<and> Business d \<noteq> []))
   \<and> (snd (fetch_and_parse E url) = Some tree \<and> SELECTORS E ''business_name'' = Some q
        \<and> tree q = Inr []
      \<longrightarrow> snd (scrape_business_details E url) = None)
   \<and> (d \<in> set (final_data (map snd (tasks_scrape_details E urls))) \<longleftrightarrow>
        (\<exists>url \<in> set urls. snd (scrape_business_details E url) = Some d))
   \<and> (snd (run_scraper E start_url) = Save output_file data \<longrightarrow>
        data \<noteq> [] \<and> (\<forall>d \<in> set data. Business d \<noteq> []))
   \<and> (snd (run_scraper E start_url) = Save output_file data \<longrightarrow>
        (\<exists>pages. search_page_urls E start_url = Inr pages
           \<and> data = final_data (map snd (tasks_scrape_details E
                      (all_business_urls (map snd (tasks_get_urls E pages)))))))
   \<and> (search_page_urls E start_url = Inr pages \<longrightarrow>
        ((\<exists>output_file data. snd (run_scraper E start_url) = Save output_file data
             \<and> d \<in> set data) \<longleftrightarrow>
         (\<exists>url \<in> set (all_business_urls (map snd (tasks_get_urls E pages))).
            \<exists>tree. snd (fetch_and_parse E url) = Some tree
              \<and> details_try E tree url = Inr d \<and> Business d \<noteq> [])))"
proof -
  have 1: "snd (scrape_business_details E url) = Some d \<longleftrightarrow>
      (\<exists>tree. snd (fetch_and_parse E url) = Some tree \<and> details_try E tree url = Inr d
         \<and> Business d \<noteq> [])"
    by (auto simp: scrape_business_details_snd split: option.splits sum.splits if_splits)
  have 2: "snd (fetch_and_parse E url) = Some tree \<and> SELECTORS E ''business_name'' = Some q
        \<and> tree q = Inr []
      \<longrightarrow> snd (scrape_business_details E url) = None"
  proof (intro impI, elim conjE)
    assume f: "snd (fetch_and_parse E url) = Some tree"
      and k: "SELECTORS E ''business_name'' = Some q" and t: "tree q = Inr []"
    show "snd (scrape_business_details E url) = None"
    proof (cases "details_try E tree url")
      case (Inl e)
      with f show ?thesis by (simp add: scrape_business_details_snd)
    next
      case (Inr d')
      from details_try_Business [OF Inr] k t have "Business d' = []"
        by (simp add: safe_xpath_get_text_def)
      with f Inr show ?thesis by (simp add: scrape_business_details_snd)
    qed
  qed
  have 3: "d \<in> set (final_data (map snd (tasks_scrape_details E urls))) \<longleftrightarrow>
        (\<exists>url \<in> set urls. snd (scrape_business_details E url) = Some d)"
    by (auto simp: final_data_set tasks_scrape_details_def image_iff) metis
  have 4: "snd (run_scraper E start_url) = Save output_file data \<longrightarrow>
        data \<noteq> [] \<and> (\<forall>d \<in> set data. Business d \<noteq> [])"
  proof
    assume "snd (run_scraper E start_url) = Save output_file data"
    from run_scraper_Save [OF this] obtain urls where
      d: "data = final_data (map snd (tasks_scrape_details E urls))" and n: "data \<noteq> []"
      by blast
    have "Business x \<noteq> []" if "x \<in> set data" for x
    proof -
      from that d obtain u where "snd (scrape_business_details E u) = Some x"
        by (auto simp: final_data_set tasks_scrape_details_def image_iff)
      then show ?thesis
        by (auto simp: scrape_business_details_snd split: option.splits sum.splits if_splits)
    qed
    with n show "data \<noteq> [] \<and> (\<forall>d \<in> set data. Business d \<noteq> [])" by blast
  qed
  have 5: "snd (run_scraper E start_url) = Save output_file data \<longrightarrow>
        (\<exists>pages. search_page_urls E start_url = Inr pages
           \<and> data = final_data (map snd (tasks_scrape_details E
                      (all_business_urls (map snd (tasks_get_urls E pages))))))"
    using run_scraper_Save [of E start_url output_file data] by blast
  have 6: "search_page_urls E start_url = Inr pages \<longrightarrow>
        ((\<exists>output_file data. snd (run_scraper E start_url) = Save output_file data
             \<and> d \<in> set data) \<longleftrightarrow>
         (\<exists>url \<in> set (all_business_urls (map snd (tasks_get_urls E pages))).
            \<exists>tree. snd (fetch_and_parse E url) = Some tree
              \<and> details_try E tree url = Inr d \<and> Business d \<noteq> []))"
  proof
    assume p: "search_page_urls E start_url = Inr pages"
    let ?urls = "all_business_urls (map snd (tasks_get_urls E pages))"
    let ?data = "final_data (map snd (tasks_scrape_details E ?urls))"
    have a: "(\<exists>output_file data. snd (run_scraper E start_url) = Save output_file data
             \<and> d \<in> set data) \<longleftrightarrow> d \<in> set ?data"
    proof (cases "d \<in> set ?data")
      case True
      then have "?data \<noteq> []" by auto
      moreover from True have "?urls \<noteq> []"
        by (auto simp: final_data_scrape)
      moreover from this have "pages \<noteq> []"
        by (auto simp: tasks_get_urls_def all_business_urls_def)
      ultimately show ?thesis
        using True by (simp add: run_scraper_snd [OF p])
    next
      case False
      then show ?thesis
        by (auto simp: run_scraper_snd [OF p] split: if_splits)
    qed
    have s: "snd (scrape_business_details E u) = Some d \<longleftrightarrow>
        (\<exists>tree. snd (fetch_and_parse E u) = Some tree \<and> details_try E tree u = Inr d
           \<and> Business d \<noteq> [])" for u
      by (auto simp: scrape_business_details_snd split: option.splits sum.splits if_splits)
    have b: "d \<in> set ?data \<longleftrightarrow>
         (\<exists>url \<in> set ?urls. \<exists>tree. snd (fetch_and_parse E url) = Some tree
              \<and> details_try E tree url = Inr d \<and> Business d \<noteq> [])"
      unfolding final_data_scrape s by blast
    from a b show "(\<exists>output_file data. snd (run_scraper E start_url) = Save output_file data
             \<and> d \<in> set data) \<longleftrightarrow>
         (\<exists>url \<in> set ?urls. \<exists>tree. snd (fetch_and_parse E url) = Some tree
              \<and> details_try E tree url = Inr d \<and> Business d \<noteq> [])"
      by blast
  qed
  from 1 2 3 4 5 6 show ?thesis by blast
qed

text \<open>
  Claim C1 on the small site: the second detail page has no business name and gives no
  record; the run hands over the one record of the first detail page.
\<close>

theorem record_exported_iff_business_nonempty_witness:
  "snd (scrape_business_details (demo GScraper demo_SELECTORS) ''https://www.yellowpages.com/anon-2'')
     = None
   \<and> snd (run_scraper (demo GScraper demo_SELECTORS) ''q'')
     = Save ''Pizza.xlsx''
        [\<lparr> Business = ''Joe Pizza'', Contact = ''(212) 555-0100'', Email = ''joe@example.com'',
            Address = [], Map_and_direction = ''https://www.yellowpages.com/map/joes-1'',
            Review = ''four'', Review_count = ''12'',
            Hyperlink = ''https://www.yellowpages.com/joes-1'', Images = [], Website = [] \<rparr>]
   \<and> Business \<lparr> Business = ''Joe Pizza'', Contact = ''(212) 555-0100'', Email = ''joe@example.com'',
            Address = [], Map_and_direction = ''https://www.yellowpages.com/map/joes-1'',
            Review = ''four'', Review_count = ''12'',
            Hyperlink = ''https://www.yellowpages.com/joes-1'', Images = [], Website = [] \<rparr> \<noteq> []"
proof -
  let ?E = "demo GScraper demo_SELECTORS"
  let ?u = "''https://www.yellowpages.com/anon-2''"
  let ?t = "the (snd (fetch_and_parse ?E ?u))"
  let ?d = "\<lparr> Business = ''Joe Pizza'', Contact = ''(212) 555-0100'', Email = ''joe@example.com'',
            Address = [], Map_and_direction = ''https://www.yellowpages.com/map/joes-1'',
            Review = ''four'', Review_count = ''12'',
            Hyperlink = ''https://www.yellowpages.com/joes-1'', Images = [], Website = [] \<rparr>"
  have n: "snd (fetch_and_parse ?E ?u) \<noteq> None"
    by (simp add: fetch_defs demo_def demo_session_get_def demo_fromstring_def demo_pages_def)
  then have f: "snd (fetch_and_parse ?E ?u) = Some ?t" by simp
  have k: "SELECTORS ?E ''business_name'' = Some ''//h2''"
    by (simp add: demo_def demo_SELECTORS_def)
  have t: "?t ''//h2'' = Inr []"
    by (simp add: fetch_defs demo_defs)
  have r: "snd (run_scraper ?E ''q'') = Save ''Pizza.xlsx'' [?d]"
    by (simp add: run_defs fetch_defs demo_defs details_defs listing_defs str_replace.simps)
  from record_exported_iff_business_nonempty
         [where E = ?E and url = ?u and tree = ?t and q = "''//h2''" and start_url = "''q''"
            and output_file = "''Pizza.xlsx''" and data = "[?d]"]
       f k t r
  have "snd (scrape_business_details ?E ?u) = None" and "\<forall>d \<in> set [?d]. Business d \<noteq> []"
    by blast+
  with r show ?thesis by simp
qed

section \<open>A selector key that is missing\<close>

text \<open>
  Claim C5, as amended. A required selector key that is absent from the loaded mapping is
  absorbed at its point of use, as a failure of that page: the detail extraction returns
  no record when any of its nine keys is missing; the listing extraction returns what it
  had set before the lookup (nothing for the category key, no URL for the business-URL
  key, the URLs and the category for the page-content key). The run does not stop.
\<close>

theorem missing_key_absorbed:
  "(key \<in> set [''business_name'', ''contact'', ''email'', ''address'', ''map_and_direction'',
               ''review'', ''review_count'', ''images'', ''website'']
      \<and> SELECTORS E key = None
      \<longrightarrow> snd (scrape_business_details E url) = None)
   \<and> (SELECTORS E ''categories'' = None
      \<longrightarrow> snd (get_business_urls_from_page E url) = ([], None))
   \<and> (SELECTORS E ''business_urls'' = None
      \<longrightarrow> fst (snd (get_business_urls_from_page E url)) = [])
   \<and> (SELECTORS E ''page_content'' = None \<and> snd (fetch_and_parse E url) = Some tree
        \<and> extract_category E tree = Inr category
        \<and> select E tree ''business_urls'' = Inr raw_links
      \<longrightarrow> snd (get_business_urls_from_page E url) = (business_links_of raw_links, category))"
proof -
  have 1: "key \<in> set [''business_name'', ''contact'', ''email'', ''address'', ''map_and_direction'',
               ''review'', ''review_count'', ''images'', ''website'']
      \<and> SELECTORS E key = None
      \<longrightarrow> snd (scrape_business_details E url) = None"
  proof (intro impI, elim conjE)
    assume k: "key \<in> set [''business_name'', ''contact'', ''email'', ''address'',
        ''map_and_direction'', ''review'', ''review_count'', ''images'', ''website'']"
      and m: "SELECTORS E key = None"
    have "details_try E tree url \<noteq> Inr d" for tree d
    proof
      assume "details_try E tree url = Inr d"
      from details_try_keys [OF this] k m show False by auto
    qed
    then show "snd (scrape_business_details E url) = None"
      by (auto simp: scrape_business_details_snd split: option.splits sum.splits)
  qed
  have 2: "SELECTORS E ''categories'' = None
      \<longrightarrow> snd (get_business_urls_from_page E url) = ([], None)"
    by (simp add: get_business_urls_from_page_snd listing_try_def extract_category_def
        select_def split: option.splits)
  have 3: "SELECTORS E ''business_urls'' = None
      \<longrightarrow> fst (snd (get_business_urls_from_page E url)) = []"
    by (simp add: get_business_urls_from_page_snd listing_try_def select_def
        split: option.splits sum.splits)
  have 4: "SELECTORS E ''page_content'' = None \<and> snd (fetch_and_parse E url) = Some tree
        \<and> extract_category E tree = Inr category
        \<and> select E tree ''business_urls'' = Inr raw_links
      \<longrightarrow> snd (get_business_urls_from_page E url) = (business_links_of raw_links, category)"
    by (simp add: get_business_urls_from_page_snd listing_try_def extract_page_content_def
        select_def)
  from 1 2 3 4 show ?thesis by blast
qed

text \<open>
  Claim C5, as amended, on the small site, without the \<open>contact\<close> key and without the
  \<open>categories\<close> key.
\<close>

theorem missing_key_absorbed_witness:
  "SELECTORS (demo GSscraper (filter (\<lambda>kv. fst kv \<noteq> ''contact'') demo_SELECTORS)) ''contact'' = None
   \<and> snd (scrape_business_details (demo GSscraper (filter (\<lambda>kv. fst kv \<noteq> ''contact'') demo_SELECTORS))
        ''https://www.yellowpages.com/joes-1'') = None
   \<and> SELECTORS (demo GSscraper (filter (\<lambda>kv. fst kv \<noteq> ''categories'') demo_SELECTORS)) ''categories'' = None
   \<and> snd (get_business_urls_from_page (demo GSscraper (filter (\<lambda>kv. fst kv \<noteq> ''categories'') demo_SELECTORS))
        ''q&page=1'') = ([], None)"
proof -
  let ?E = "demo GSscraper (filter (\<lambda>kv. fst kv \<noteq> ''contact'') demo_SELECTORS)"
  let ?F = "demo GSscraper (filter (\<lambda>kv. fst kv \<noteq> ''categories'') demo_SELECTORS)"
  have k: "SELECTORS ?E ''contact'' = None"
    by (simp add: demo_def demo_SELECTORS_def)
  have c: "SELECTORS ?F ''categories'' = None"
    by (simp add: demo_def demo_SELECTORS_def)
  from missing_key_absorbed [where E = ?E and key = "''contact''"
         and url = "''https://www.yellowpages.com/joes-1''"] k
  have 1: "snd (scrape_business_details ?E ''https://www.yellowpages.com/joes-1'') = None"
    by simp
  from missing_key_absorbed [where E = ?F and url = "''q&page=1''"] c
  have 2: "snd (get_business_urls_from_page ?F ''q&page=1'') = ([], None)"
    by blast
  from k c 1 2 show ?thesis by blast
qed

text \<open>
  Claim C5 as it is written fails: without the \<open>page_content\<close> key the run of the small
  site goes to its end and hands a record to the exporter; without the \<open>contact\<close> key it
  goes to its end with no record, as a run whose detail pages all failed.
\<close>

theorem missing_key_run_exports:
  "SELECTORS (demo GSscraper (filter (\<lambda>kv. fst kv \<noteq> ''page_content'') demo_SELECTORS)) ''page_content'' = None
   \<and> snd (run_scraper (demo GSscraper (filter (\<lambda>kv. fst kv \<noteq> ''page_content'') demo_SELECTORS)) ''q'')
     = Save ''Pizza.xlsx''
        [\<lparr> Business = ''Joe Pizza'', Contact = ''(212) 555-0100'', Email = ''joe@example.com'',
            Address = [], Map_and_direction = ''https://www.yellowpages.com/map/joes-1'',
            Review = ''four'', Review_count = ''12'',
            Hyperlink = ''https://www.yellowpages.com/joes-1'', Images = [], Website = [] \<rparr>]
   \<and> SELECTORS (demo GSscraper (filter (\<lambda>kv. fst kv \<noteq> ''contact'') demo_SELECTORS)) ''contact'' = None
   \<and> snd (run_scraper (demo GSscraper (filter (\<lambda>kv. fst kv \<noteq> ''contact'') demo_SELECTORS)) ''q'')
     = NoDetails"
  by (simp add: run_defs fetch_defs demo_defs details_defs listing_defs str_replace.simps)


section \<open>The merged set of detail URLs\<close>

lemma distinct_count_list_one: "distinct xs \<Longrightarrow> x \<in> set xs \<Longrightarrow> count_list xs x = 1"
  by (induction xs) auto

lemma set_add_set: "set (set_add s x) = insert x (set s)"
  by (auto simp: set_add_def)

lemma set_add_distinct: "distinct s \<Longrightarrow> distinct (set_add s x)"
  by (simp add: set_add_def)

lemma set_update_set: "set (set_update s xs) = set s \<union> set xs"
  unfolding set_update_def
  by (induction xs arbitrary: s) (auto simp: set_add_set)

lemma set_update_distinct: "distinct s \<Longrightarrow> distinct (set_update s xs)"
  unfolding set_update_def
  by (induction xs arbitrary: s) (auto simp: set_add_distinct)

lemma all_business_urls_loop_set:
  "set (all_business_urls_loop acc results) = set acc \<union> (\<Union>r \<in> set results. set (fst r))"
  by (induction acc results rule: all_business_urls_loop.induct)
     (auto simp: set_update_set)

lemma all_business_urls_loop_distinct:
  "distinct acc \<Longrightarrow> distinct (all_business_urls_loop acc results)"
  by (induction acc results rule: all_business_urls_loop.induct)
     (auto simp: set_update_distinct)

lemma scrape_business_details_requests:
  "count_list (fst (scrape_business_details E url)) (Request u) =
     (if u = url then (case userAgents E of Inl _ \<Rightarrow> 0 | Inr _ \<Rightarrow> 1) else 0)"
  by (simp add: scrape_business_details_fst fetch_and_parse_fst
      split: option.splits sum.splits variant.splits)

lemma count_list_concat_traces:
  "distinct urls \<Longrightarrow>
   count_list (concat (map fst (tasks_scrape_details E urls))) (Request u) =
     (if u \<in> set urls then (case userAgents E of Inl _ \<Rightarrow> 0 | Inr _ \<Rightarrow> 1) else 0)"
  by (induction urls)
     (auto simp: tasks_scrape_details_def scrape_business_details_requests)

text \<open>
  Claim C2. The orchestrator unions the URL lists of all listing pages into one set
  without duplicates and creates one detail task for each of its elements: the events of
  a run are those of the listing tasks followed by those of one detail task for every
  element of the set. A URL that a listing page gives, however many pages give it, is
  therefore an element once, and the enrichment phase issues exactly one request for it
  whenever \<open>userAgents()\<close> returns, as it always does in \<open>GSscraper.py\<close>; when
  \<open>userAgents()\<close> raises, the one fetch of the URL fails before its request.
\<close>

theorem detail_url_fetched_once:
  "distinct (all_business_urls results_urls)
   \<and> set (all_business_urls results_urls) = (\<Union>r \<in> set results_urls. set (fst r))
   \<and> length (tasks_scrape_details E (all_business_urls results_urls))
       = length (all_business_urls results_urls)
   \<and> (r \<in> set results_urls \<and> u \<in> set (fst r) \<and> r' \<in> set results_urls \<and> u \<in> set (fst r')
      \<longrightarrow> count_list (all_business_urls results_urls) u = 1)
   \<and> (search_page_urls E start_url = Inr pages \<longrightarrow>
        fst (run_scraper E start_url) =
          concat (map fst (tasks_get_urls E pages))
            @ concat (map (\<lambda>url. fst (scrape_business_details E url))
                (all_business_urls (map snd (tasks_get_urls E pages)))))
   \<and> (search_page_urls E start_url = Inr pages \<and> p \<in> set pages
        \<and> u \<in> set (fst (snd (get_business_urls_from_page E p)))
      \<longrightarrow> count_list (all_business_urls (map snd (tasks_get_urls E pages))) u = 1
        \<and> (\<exists>tr2. fst (run_scraper E start_url) = concat (map fst (tasks_get_urls E pages)) @ tr2
              \<and> (userAgents E = Inr ua \<longrightarrow> count_list tr2 (Request u) = 1)
              \<and> (variant E = GSscraper \<longrightarrow> count_list tr2 (Request u) = 1)
              \<and> (userAgents E = Inl e \<longrightarrow> count_list tr2 (Request u) = 0)))"
proof -
  have d: "distinct (all_business_urls rs)" for rs
    by (simp add: all_business_urls_def all_business_urls_loop_distinct)
  have s: "set (all_business_urls rs) = (\<Union>r \<in> set rs. set (fst r))" for rs
    by (simp add: all_business_urls_def all_business_urls_loop_set)
  have l: "length (tasks_scrape_details E (all_business_urls results_urls))
       = length (all_business_urls results_urls)"
    by (simp add: tasks_scrape_details_def)
  have c: "count_list (all_business_urls results_urls) u = 1"
    if "r \<in> set results_urls" "u \<in> set (fst r)"
  proof -
    from that s [of results_urls] have "u \<in> set (all_business_urls results_urls)" by blast
    with d [of results_urls] show ?thesis by (simp add: distinct_count_list_one)
  qed
  have t: "fst (run_scraper E start_url) =
          concat (map fst (tasks_get_urls E pages))
            @ concat (map (\<lambda>url. fst (scrape_business_details E url))
                (all_business_urls (map snd (tasks_get_urls E pages))))"
    if "search_page_urls E start_url = Inr pages"
    using run_scraper_fst [OF that] by (simp add: tasks_scrape_details_def comp_def)
  have f: "count_list (all_business_urls (map snd (tasks_get_urls E pages))) u = 1
        \<and> (\<exists>tr2. fst (run_scraper E start_url) = concat (map fst (tasks_get_urls E pages)) @ tr2
              \<and> (userAgents E = Inr ua \<longrightarrow> count_list tr2 (Request u) = 1)
              \<and> (variant E = GSscraper \<longrightarrow> count_list tr2 (Request u) = 1)
              \<and> (userAgents E = Inl e \<longrightarrow> count_list tr2 (Request u) = 0))"
    if sp: "search_page_urls E start_url = Inr pages" and p: "p \<in> set pages"
      and u: "u \<in> set (fst (snd (get_business_urls_from_page E p)))"
  proof -
    let ?rs = "map snd (tasks_get_urls E pages)"
    let ?urls = "all_business_urls ?rs"
    let ?tr2 = "concat (map fst (tasks_scrape_details E ?urls))"
    from p have "snd (get_business_urls_from_page E p) \<in> set ?rs"
      by (simp add: tasks_get_urls_def image_iff) blast
    with u s [of ?rs] have m: "u \<in> set ?urls" by blast
    with d [of ?rs] have 1: "count_list ?urls u = 1" by (simp add: distinct_count_list_one)
    from m d [of ?rs] have n: "count_list ?tr2 (Request u)
        = (case userAgents E of Inl _ \<Rightarrow> 0 | Inr _ \<Rightarrow> 1)"
      by (simp add: count_list_concat_traces)
    have 2: "fst (run_scraper E start_url) = concat (map fst (tasks_get_urls E pages)) @ ?tr2"
      by (rule run_scraper_fst [OF sp])
    have 3: "userAgents E = Inr ua \<longrightarrow> count_list ?tr2 (Request u) = 1"
      using n by simp
    have 4: "variant E = GSscraper \<longrightarrow> count_list ?tr2 (Request u) = 1"
      using n by (simp add: userAgents_def)
    have 5: "userAgents E = Inl e \<longrightarrow> count_list ?tr2 (Request u) = 0"
      using n by simp
    from 1 2 3 4 5 show ?thesis by blast
  qed
  from d [of results_urls] s [of results_urls] l c t f show ?thesis by blast
qed

text \<open>
  Claim C2 on the small site: three listing pages give the first detail URL, and the run
  requests it once.
\<close>

theorem detail_url_fetched_once_witness:
  "all_business_urls (map snd (tasks_get_urls (demo GSscraper demo_SELECTORS) (yp_lists ''q'')))
     = [''https://www.yellowpages.com/joes-1'', ''https://www.yellowpages.com/anon-2'']
   \<and> count_list (fst (run_scraper (demo GSscraper demo_SELECTORS) ''q''))
        (Request ''https://www.yellowpages.com/joes-1'') = 1"
proof -
  let ?E = "demo GSscraper demo_SELECTORS"
  let ?rs = "map snd (tasks_get_urls ?E (yp_lists ''q''))"
  let ?u = "''https://www.yellowpages.com/joes-1''"
  have rs: "?rs =
      [([?u, ''https://www.yellowpages.com/anon-2''], Some ''Pizza''),
       ([?u], Some ''Pizza: NY''), ([], None), ([], None), ([], None),
       ([?u], Some ''Pizza: NY''), ([], None), ([], None), ([], None)]"
    by (simp add: run_defs fetch_defs demo_defs listing_defs)
  have a: "all_business_urls ?rs = [?u, ''https://www.yellowpages.com/anon-2'']"
    unfolding rs by (simp add: run_defs)
  have sp: "search_page_urls ?E ''q'' = Inr (yp_lists ''q'')"
    by (simp add: search_page_urls_def demo_def)
  have p: "''q&page=1'' \<in> set (yp_lists ''q'')"
    by (simp add: yp_lists_def)
  have u: "?u \<in> set (fst (snd (get_business_urls_from_page ?E ''q&page=1'')))"
    by (simp add: fetch_defs demo_defs listing_defs)
  have v: "variant ?E = GSscraper"
    by (simp add: demo_def)
  have z: "count_list (concat (map fst (tasks_get_urls ?E (yp_lists ''q'')))) (Request ?u) = 0"
    by (simp add: run_defs fetch_defs demo_defs listing_defs)
  from detail_url_fetched_once [where E = ?E and start_url = "''q''"
      and pages = "yp_lists ''q''" and p = "''q&page=1''" and u = ?u] sp p u v
  obtain tr2 where
    "fst (run_scraper ?E ''q'') = concat (map fst (tasks_get_urls ?E (yp_lists ''q''))) @ tr2"
    and "count_list tr2 (Request ?u) = 1"
    by blast
  with z have "count_list (fst (run_scraper ?E ''q'')) (Request ?u) = 1"
    by simp
  with a show ?thesis by blast
qed

section \<open>The name of the export\<close>










section \<open>The bound on the fetches in flight\<close>

lemma inside_block_append:
  "inside_block (xs @ [Release]) \<longleftrightarrow> list_all (\<lambda>e. e \<noteq> Acquire \<and> e \<noteq> Release) xs"
proof (induction xs)
  case Nil
  show ?case by simp
next
  case (Cons e xs)
  then show ?case by (cases e) simp_all
qed

lemma inside_block_Cons:
  assumes "inside_block tr"
  shows "\<exists>e rest. tr = e # rest \<and> e \<noteq> Acquire
           \<and> (if e = Release then rest = [] else inside_block rest)"
  using assms by (cases tr rule: inside_block.cases) simp_all

lemma task_ok_cases:
  assumes "task_ok (n, tr)"
  shows "(n = 0 \<and> tr = []) \<or> (n = 0 \<and> (\<exists>rest. tr = Acquire # rest \<and> inside_block rest))
         \<or> (n = Suc 0 \<and> inside_block tr)"
  using assms by (cases "(n, tr)" rule: task_ok.cases) simp_all

lemma fetch_and_parse_plain:
  "list_all (\<lambda>e. e \<noteq> Acquire \<and> e \<noteq> Release) (fst (fetch_and_parse E url))"
  by (simp add: fetch_and_parse_fst split: variant.splits sum.splits)

lemma get_business_urls_task_ok: "task_ok (0, fst (get_business_urls_from_page E url))"
proof -
  have "inside_block ((fst (fetch_and_parse E url) @ rest) @ [Release])"
    if "rest = [] \<or> rest = [Sleep (1/2) (3/2)]" for rest
    unfolding inside_block_append using that fetch_and_parse_plain [of E url] by auto
  then show ?thesis
    by (simp add: get_business_urls_from_page_fst split: option.splits flow.splits)
qed

lemma scrape_business_details_task_ok: "task_ok (0, fst (scrape_business_details E url))"
proof -
  have "inside_block ((fst (fetch_and_parse E url) @ rest) @ [Release])"
    if "rest = [] \<or> rest = [Sleep (3/10) 1]" for rest
    unfolding inside_block_append using that fetch_and_parse_plain [of E url] by auto
  then show ?thesis
    by (simp add: scrape_business_details_fst split: option.splits sum.splits)
qed

lemma sum_fst_update:
  "i < length xs \<Longrightarrow>
   sum_list (map fst (xs[i := y])) + fst (xs ! i) = sum_list (map fst xs) + fst (y::nat \<times> 'a)"
proof (induction xs arbitrary: i)
  case Nil
  then show ?case by simp
next
  case (Cons x xs)
  then show ?case by (cases i) auto
qed

lemma sum_update_less:
  "i < length xs \<Longrightarrow> (f y :: nat) < f (xs ! i) \<Longrightarrow>
   sum_list (map f (xs[i := y])) < sum_list (map f xs)"
proof (induction xs arbitrary: i)
  case Nil
  then show ?case by simp
next
  case (Cons x xs)
  then show ?case by (cases i) auto
qed

lemma list_all_update:
  "list_all P xs \<Longrightarrow> P y \<Longrightarrow> list_all P (xs[i := y])"
  using set_update_subset_insert [of xs i y] by (auto simp: list_all_iff)

lemma list_all_nth: "list_all P xs \<Longrightarrow> i < length xs \<Longrightarrow> P (xs ! i)"
  by (simp add: list_all_length)

lemma in_flight_le_units:
  "length (filter (\<lambda>t. 0 < fst t) xs) \<le> sum_list (map fst (xs :: (nat \<times> 'a) list))"
  by (induction xs) auto

lemma loop_inv_start:
  assumes "list_all (\<lambda>tr. task_ok (0, tr)) traces"
  shows "loop_inv (CONCURRENT_REQUEST_LIMIT (variant E)) (phase_start E traces)"
proof -
  have "sum_list (map fst (map (Pair (0::nat)) traces)) = 0"
    by (induction traces) simp_all
  moreover from assms have "list_all task_ok (map (Pair 0) traces)"
    by (induction traces) simp_all
  ultimately show ?thesis by (simp add: loop_inv_def phase_start_def)
qed

lemma loop_inv_step:
  assumes "step c c'" and "loop_inv limit c"
  shows "loop_inv limit c'"
  using assms(1)
proof (cases rule: step.cases)
  case (enter i n rest)
  from assms(2) enter(2,3) have "task_ok (n, Acquire # rest)"
    using list_all_nth [of task_ok "tasks c" i] by (simp add: loop_inv_def)
  then have n: "n = 0" and r: "inside_block rest"
    using task_ok_cases [of n "Acquire # rest"] by auto
  from sum_fst_update [OF enter(2), of "(Suc n, rest)"] enter(3)
  have "sum_list (map fst ((tasks c)[i := (Suc n, rest)])) + n
          = sum_list (map fst (tasks c)) + Suc n"
    by simp
  with assms(2) enter n r show ?thesis
    by (auto simp: loop_inv_def intro: list_all_update)
next
  case (leave i n rest)
  from assms(2) leave(2,3) have "task_ok (n, Release # rest)"
    using list_all_nth [of task_ok "tasks c" i] by (simp add: loop_inv_def)
  then have n: "n = Suc 0" and r: "rest = []"
    using task_ok_cases [of n "Release # rest"] by auto
  from sum_fst_update [OF leave(2), of "(n - 1, rest)"] leave(3)
  have "sum_list (map fst ((tasks c)[i := (n - 1, rest)])) + n
          = sum_list (map fst (tasks c)) + (n - 1)"
    by simp
  with assms(2) leave n r show ?thesis
    by (auto simp: loop_inv_def intro: list_all_update)
next
  case (other i n e rest)
  from assms(2) other(2,3) have "task_ok (n, e # rest)"
    using list_all_nth [of task_ok "tasks c" i] by (simp add: loop_inv_def)
  with other(4,5) have n: "n = Suc 0" and r: "inside_block rest"
    using task_ok_cases [of n "e # rest"] by (cases e; auto)+
  from sum_fst_update [OF other(2), of "(n, rest)"] other(3)
  have "sum_list (map fst ((tasks c)[i := (n, rest)])) = sum_list (map fst (tasks c))"
    by simp
  with assms(2) other n r show ?thesis
    by (auto simp: loop_inv_def intro: list_all_update)
qed

lemma loop_inv_reachable:
  assumes "step\<^sup>*\<^sup>* (phase_start E traces) c" and "list_all (\<lambda>tr. task_ok (0, tr)) traces"
  shows "loop_inv (CONCURRENT_REQUEST_LIMIT (variant E)) c"
  using assms
  by (induction rule: rtranclp_induct) (auto intro: loop_inv_start loop_inv_step)

lemma step_length: "step c c' \<Longrightarrow> length (tasks c') = length (tasks c)"
  by (cases rule: step.cases) auto

lemma reachable_length:
  assumes "step\<^sup>*\<^sup>* (phase_start E traces) c"
  shows "length (tasks c) = length traces"
  using assms
  by (induction rule: rtranclp_induct) (auto simp: phase_start_def step_length)

lemma step_decreases:
  assumes "step c c'"
  shows "sum_list (map (length \<circ> snd) (tasks c')) < sum_list (map (length \<circ> snd) (tasks c))"
  using assms
  by (cases rule: step.cases) (auto intro!: sum_update_less)

lemma loop_progress:
  assumes inv: "loop_inv limit c" and pos: "0 < limit"
    and j: "j < length (tasks c)" and tr: "snd (tasks c ! j) \<noteq> []"
  shows "\<exists>c'. step c c'"
proof (cases "\<exists>i < length (tasks c). 0 < fst (tasks c ! i)")
  case True
  then obtain i n tr where i: "i < length (tasks c)" and t: "tasks c ! i = (n, tr)" and n: "0 < n"
    by (metis fst_conv surj_pair)
  from inv i t have "task_ok (n, tr)"
    using list_all_nth [of task_ok "tasks c" i] by (simp add: loop_inv_def)
  with n have "inside_block tr"
    using task_ok_cases [of n tr] by auto
  from inside_block_Cons [OF this] obtain e rest where e: "tr = e # rest" "e \<noteq> Acquire"
    by blast
  show ?thesis
  proof (cases "e = Release")
    case True
    with i t e show ?thesis by (auto intro: step.leave)
  next
    case False
    with i t e show ?thesis by (auto intro: step.other)
  qed
next
  case False
  then have z: "fst (tasks c ! i) = 0" if "i < length (tasks c)" for i
    using that by auto
  have "\<forall>t \<in> set (tasks c). fst t = 0"
    using z by (metis in_set_conv_nth)
  then have "sum_list (map fst (tasks c)) = 0"
    by simp
  with inv pos have s: "0 < sem_value c"
    by (simp add: loop_inv_def)
  obtain n t where t: "tasks c ! j = (n, t)" by (cases "tasks c ! j")
  from inv j t have ok: "task_ok (n, t)"
    using list_all_nth [of task_ok "tasks c" j] by (simp add: loop_inv_def)
  from False j t have "n = 0" by auto
  with ok tr t obtain rest where "t = Acquire # rest"
    using task_ok_cases [of n t] by auto
  with j t s show ?thesis by (auto intro: step.enter)
qed

lemma loop_end_value:
  assumes inv: "loop_inv limit c" and e: "\<forall>j < length (tasks c). snd (tasks c ! j) = []"
  shows "sem_value c = limit"
proof -
  have "fst t = 0" if "t \<in> set (tasks c)" for t
  proof -
    from that obtain j where j: "j < length (tasks c)" "tasks c ! j = t"
      by (auto simp: in_set_conv_nth)
    obtain n tr where t: "t = (n, tr)" by (cases t)
    from j e t have "tr = []" by auto
    moreover from inv that t have "task_ok (n, tr)" by (simp add: loop_inv_def list_all_iff)
    ultimately show ?thesis
      using task_ok_cases [of n tr] t by auto
  qed
  then have "sum_list (map fst (tasks c)) = 0" by simp
  with inv show ?thesis by (simp add: loop_inv_def)
qed

lemma phase_bounded:
  assumes "traces = map fst (tasks_get_urls E urls)
           \<or> traces = map fst (tasks_scrape_details E urls)"
      and "step\<^sup>*\<^sup>* (phase_start E traces) c"
  shows "length (in_flight c) \<le> CONCURRENT_REQUEST_LIMIT (variant E)
     \<and> sem_value c + sum_list (map fst (tasks c)) = CONCURRENT_REQUEST_LIMIT (variant E)
     \<and> length (tasks c) = length traces
     \<and> (i < length (tasks c) \<and> tasks c ! i = (n, Request u # rest)
          \<longrightarrow> tasks c ! i \<in> set (in_flight c))
     \<and> ((\<exists>j < length (tasks c). snd (tasks c ! j) \<noteq> []) \<longrightarrow> (\<exists>c'. step c c'))
     \<and> ((\<forall>j < length (tasks c). snd (tasks c ! j) = [])
          \<longrightarrow> sem_value c = CONCURRENT_REQUEST_LIMIT (variant E))"
proof -
  let ?L = "CONCURRENT_REQUEST_LIMIT (variant E)"
  from assms(1) have ok: "list_all (\<lambda>tr. task_ok (0, tr)) traces"
    by (auto simp: list_all_iff tasks_get_urls_def tasks_scrape_details_def
        get_business_urls_task_ok scrape_business_details_task_ok)
  from loop_inv_reachable [OF assms(2) ok] have inv: "loop_inv ?L c" .
  then have 1: "sem_value c + sum_list (map fst (tasks c)) = ?L"
    by (simp add: loop_inv_def)
  have "length (in_flight c) \<le> sum_list (map fst (tasks c))"
    unfolding in_flight_def by (rule in_flight_le_units)
  with 1 have 0: "length (in_flight c) \<le> ?L" by simp
  from reachable_length [OF assms(2)] have 2: "length (tasks c) = length traces" .
  have 3: "i < length (tasks c) \<and> tasks c ! i = (n, Request u # rest)
          \<longrightarrow> tasks c ! i \<in> set (in_flight c)"
  proof (intro impI, elim conjE)
    assume i: "i < length (tasks c)" and t: "tasks c ! i = (n, Request u # rest)"
    from inv i t have "task_ok (n, Request u # rest)"
      using list_all_nth [of task_ok "tasks c" i] by (simp add: loop_inv_def)
    then have "n = Suc 0"
      using task_ok_cases [of n "Request u # rest"] by auto
    with i t show "tasks c ! i \<in> set (in_flight c)"
      by (auto simp: in_flight_def in_set_conv_nth)
  qed
  have pos: "0 < ?L"
    by (cases "variant E") (simp_all add: CONCURRENT_REQUEST_LIMIT_def)
  have 4: "(\<exists>j < length (tasks c). snd (tasks c ! j) \<noteq> []) \<longrightarrow> (\<exists>c'. step c c')"
    using loop_progress [OF inv pos] by blast
  have 6: "(\<forall>j < length (tasks c). snd (tasks c ! j) = []) \<longrightarrow> sem_value c = ?L"
    using loop_end_value [OF inv] by blast
  from 0 1 2 3 4 6 show ?thesis by blast
qed

lemma phases_cases:
  assumes "c0 \<in> set (phases E start_url)"
  shows "\<exists>urls. c0 = phase_start E (map fst (tasks_get_urls E urls))
           \<or> c0 = phase_start E (map fst (tasks_scrape_details E urls))"
  using assms
  by (auto simp: phases_def Let_def split: sum.splits if_splits)

lemma phases_traces:
  "fst (run_scraper E start_url)
     = concat (map (\<lambda>c0. concat (map snd (tasks c0))) (phases E start_url))"
  by (cases "search_page_urls E start_url")
     (simp_all add: run_scraper_def phases_def phase_start_def Let_def comp_def)

lemma phases_lengths:
  assumes "search_page_urls E start_url = Inr pages"
  shows "map (\<lambda>c0. length (tasks c0)) (phases E start_url) =
     (if pages = [] then []
      else if all_business_urls (map snd (tasks_get_urls E pages)) = [] then [length pages]
      else [length pages, length (all_business_urls (map snd (tasks_get_urls E pages)))])"
  using assms
  by (simp add: phases_def phase_start_def Let_def tasks_get_urls_def tasks_scrape_details_def)

text \<open>
  Claim C9. Take a phase of a run, the listing tasks of its pages or the detail tasks of
  its URLs, each task with the trace its function gives, and the semaphore \<open>run_scraper\<close>
  makes with \<open>CONCURRENT_REQUEST_LIMIT\<close>. In every state the loop can reach, whatever the
  order in which it runs the tasks, at most \<open>CONCURRENT_REQUEST_LIMIT\<close> tasks are inside
  the semaphore block, also when there are more tasks than that, and a task that is about
  to issue its request is one of them: no more than the limit of fetches are in flight.
  The limit takes no task away: a phase has one task for every page or URL in every
  state; while a task has something left to do the loop can take a step, and every step
  shortens what is left, so that a phase ends with all its tasks done; the semaphore then
  has its whole value again. The events of the run are the events of the tasks of its
  phases.
\<close>

theorem in_flight_bounded:
  assumes "c0 \<in> set (phases E start_url)"
      and "step\<^sup>*\<^sup>* c0 c"
  shows "length (in_flight c) \<le> CONCURRENT_REQUEST_LIMIT (variant E)
     \<and> sem_value c + sum_list (map fst (tasks c)) = CONCURRENT_REQUEST_LIMIT (variant E)
     \<and> length (tasks c) = length (tasks c0)
     \<and> (i < length (tasks c) \<and> tasks c ! i = (n, Request u # rest)
          \<longrightarrow> tasks c ! i \<in> set (in_flight c))
     \<and> ((\<exists>j < length (tasks c). snd (tasks c ! j) \<noteq> []) \<longrightarrow> (\<exists>c'. step c c'))
     \<and> (step c c' \<longrightarrow> sum_list (map (length \<circ> snd) (tasks c'))
                         < sum_list (map (length \<circ> snd) (tasks c)))
     \<and> ((\<forall>j < length (tasks c). snd (tasks c ! j) = [])
          \<longrightarrow> sem_value c = CONCURRENT_REQUEST_LIMIT (variant E))
     \<and> fst (run_scraper E start_url)
          = concat (map (\<lambda>c0. concat (map snd (tasks c0))) (phases E start_url))
     \<and> (search_page_urls E start_url = Inr pages \<longrightarrow>
          map (\<lambda>c0. length (tasks c0)) (phases E start_url) =
            (if pages = [] then []
             else if all_business_urls (map snd (tasks_get_urls E pages)) = []
               then [length pages]
             else [length pages,
                   length (all_business_urls (map snd (tasks_get_urls E pages)))]))"
proof -
  from phases_cases [OF assms(1)] obtain urls traces where
    t: "traces = map fst (tasks_get_urls E urls) \<or> traces = map fst (tasks_scrape_details E urls)"
    and c0: "c0 = phase_start E traces"
    by blast
  from assms(2) c0 have r: "step\<^sup>*\<^sup>* (phase_start E traces) c" by simp
  have l: "length (tasks c0) = length traces"
    by (simp add: c0 phase_start_def)
  have 5: "step c c' \<longrightarrow> sum_list (map (length \<circ> snd) (tasks c'))
                         < sum_list (map (length \<circ> snd) (tasks c))"
    using step_decreases by blast
  from phase_bounded [OF t r, of i n u rest] l 5 phases_traces [of E start_url]
    phases_lengths [of E start_url pages]
  show ?thesis by simp
qed

text \<open>
  Claim C9 at the first phase of the run of the small site, nine listing tasks under the
  limit 2 of \<open>GSscraper.py\<close>: after two tasks have entered the block, two are in flight
  and a third cannot enter.
\<close>

theorem in_flight_bounded_witness:
  "hd (phases (demo GSscraper demo_SELECTORS) ''q'')
     = \<lparr> sem_value = 2,
         tasks = [(0, [Acquire, Sleep 2 5, Request ''q&page=1'', Sleep (1/2) (3/2), Release]),
                  (0, [Acquire, Sleep 2 5, Request ''q&page=2'', Sleep (1/2) (3/2), Release])]
                 @ map (\<lambda>num. (0, [Acquire, Sleep 2 5, Request (''q&page='' @ [num]), Release]))
                     ''345''
                 @ [(0, [Acquire, Sleep 2 5, Request ''q&page=6'', Sleep (1/2) (3/2), Release])]
                 @ map (\<lambda>num. (0, [Acquire, Sleep 2 5, Request (''q&page='' @ [num]), Release]))
                     ''789'' \<rparr>
   \<and> step\<^sup>*\<^sup>* (hd (phases (demo GSscraper demo_SELECTORS) ''q''))
       \<lparr> sem_value = 0,
         tasks = [(1, [Sleep 2 5, Request ''q&page=1'', Sleep (1/2) (3/2), Release]),
                  (1, [Sleep 2 5, Request ''q&page=2'', Sleep (1/2) (3/2), Release])]
                 @ map (\<lambda>num. (0, [Acquire, Sleep 2 5, Request (''q&page='' @ [num]), Release]))
                     ''345''
                 @ [(0, [Acquire, Sleep 2 5, Request ''q&page=6'', Sleep (1/2) (3/2), Release])]
                 @ map (\<lambda>num. (0, [Acquire, Sleep 2 5, Request (''q&page='' @ [num]), Release]))
                     ''789'' \<rparr>
   \<and> CONCURRENT_REQUEST_LIMIT (variant (demo GSscraper demo_SELECTORS)) = 2
   \<and> length (in_flight
       \<lparr> sem_value = 0,
         tasks = [(1, [Sleep 2 5, Request ''q&page=1'', Sleep (1/2) (3/2), Release]),
                  (1, [Sleep 2 5, Request ''q&page=2'', Sleep (1/2) (3/2), Release])]
                 @ map (\<lambda>num. (0, [Acquire, Sleep 2 5, Request (''q&page='' @ [num]), Release]))
                     ''345''
                 @ [(0, [Acquire, Sleep 2 5, Request ''q&page=6'', Sleep (1/2) (3/2), Release])]
                 @ map (\<lambda>num. (0, [Acquire, Sleep 2 5, Request (''q&page='' @ [num]), Release]))
                     ''789'' \<rparr>) = 2
   \<and> \<not> step
       \<lparr> sem_value = 0,
         tasks = [(1, [Sleep 2 5, Request ''q&page=1'', Sleep (1/2) (3/2), Release]),
                  (1, [Sleep 2 5, Request ''q&page=2'', Sleep (1/2) (3/2), Release])]
                 @ map (\<lambda>num. (0, [Acquire, Sleep 2 5, Request (''q&page='' @ [num]), Release]))
                     ''345''
                 @ [(0, [Acquire, Sleep 2 5, Request ''q&page=6'', Sleep (1/2) (3/2), Release])]
                 @ map (\<lambda>num. (0, [Acquire, Sleep 2 5, Request (''q&page='' @ [num]), Release]))
                     ''789'' \<rparr>
       \<lparr> sem_value = 0,
         tasks = [(1, [Sleep 2 5, Request ''q&page=1'', Sleep (1/2) (3/2), Release]),
                  (1, [Sleep 2 5, Request ''q&page=2'', Sleep (1/2) (3/2), Release]),
                  (1, [Sleep 2 5, Request ''q&page=3'', Release])]
                 @ map (\<lambda>num. (0, [Acquire, Sleep 2 5, Request (''q&page='' @ [num]), Release]))
                     ''45''
                 @ [(0, [Acquire, Sleep 2 5, Request ''q&page=6'', Sleep (1/2) (3/2), Release])]
                 @ map (\<lambda>num. (0, [Acquire, Sleep 2 5, Request (''q&page='' @ [num]), Release]))
                     ''789'' \<rparr>"
proof -
  let ?E = "demo GSscraper demo_SELECTORS"
  let ?t1 = "[Sleep 2 5, Request ''q&page=1'', Sleep (1/2) (3/2), Release]"
  let ?t2 = "[Sleep 2 5, Request ''q&page=2'', Sleep (1/2) (3/2), Release]"
  let ?w = "\<lambda>num. (0::nat, [Acquire, Sleep 2 5, Request (''q&page='' @ [num]), Release])"
  let ?six = "[(0::nat, [Acquire, Sleep 2 5, Request ''q&page=6'', Sleep (1/2) (3/2), Release])]"
  let ?c0 = "\<lparr> sem_value = 2,
               tasks = [(0, Acquire # ?t1), (0, Acquire # ?t2)] @ map ?w ''345'' @ ?six @ map ?w ''789'' \<rparr>"
  let ?c1 = "\<lparr> sem_value = 1,
               tasks = [(1, ?t1), (0, Acquire # ?t2)] @ map ?w ''345'' @ ?six @ map ?w ''789'' \<rparr>"
  let ?c2 = "\<lparr> sem_value = 0, tasks = [(1, ?t1), (1, ?t2)] @ map ?w ''345'' @ ?six @ map ?w ''789'' \<rparr>"
  let ?c3 = "\<lparr> sem_value = 0,
               tasks = [(1, ?t1), (1, ?t2), (1, [Sleep 2 5, Request ''q&page=3'', Release])]
                       @ map ?w ''45'' @ ?six @ map ?w ''789'' \<rparr>"
  have l: "CONCURRENT_REQUEST_LIMIT (variant ?E) = 2"
    by (simp add: CONCURRENT_REQUEST_LIMIT_def demo_def)
  have ph: "phases ?E ''q'' =
      [?c0, phase_start ?E (map fst (tasks_scrape_details ?E
              [''https://www.yellowpages.com/joes-1'', ''https://www.yellowpages.com/anon-2'']))]"
    by (simp add: phases_def phase_start_def CONCURRENT_REQUEST_LIMIT_def run_defs fetch_defs
        demo_defs listing_defs)
  then have h: "hd (phases ?E ''q'') = ?c0" and m: "?c0 \<in> set (phases ?E ''q'')"
    by simp_all
  have a: "step ?c0 ?c1"
    using step.enter [of 0 ?c0 0 ?t1] by simp
  have b: "step ?c1 ?c2"
    using step.enter [of 1 ?c1 0 ?t2] by simp
  from a b have r: "step\<^sup>*\<^sup>* ?c0 ?c2"
    by simp
  have n: "\<not> step ?c2 ?c3"
  proof
    assume "step ?c2 ?c3"
    with r have "step\<^sup>*\<^sup>* ?c0 ?c3"
      by (rule rtranclp.rtrancl_into_rtrancl)
    from in_flight_bounded [OF m this]
    have "length (in_flight ?c3) \<le> CONCURRENT_REQUEST_LIMIT (variant ?E)"
      by blast
    then show False
      by (simp add: l in_flight_def)
  qed
  have f: "length (in_flight ?c2) = 2"
    by (simp add: in_flight_def)
  from h r l f n show ?thesis by simp
qed

end
